theory Spec2Isabelle
  imports Complex_Main "HOL-Library.Sublist"
begin

section \<open>Numeric conventions\<close>

text \<open>
  The script \<^verbatim>\<open>examples/PINN/scripts/Bioreactor_Multifidelity.py\<close> computes with Python
  floats, which are binary64 numbers. A float is embedded as the real number it denotes.
  Where the outcome of the script depends on rounding, in the index computation and the
  time shift of \<^verbatim>\<open>MultiNetwork.eval\<close>, every operation is followed by binary64 rounding
  (\<open>round_double\<close> below). The constants, the epoch budget and the training grid are
  embedded with exact real arithmetic. Python integers are \<open>int\<close>.
\<close>

datatype error =
    AttributeError
  | IndexError
  | ValueError
  | External string

definition py_int :: "real \<Rightarrow> int" where
  \<comment> \<open>Python's \<^verbatim>\<open>int(x)\<close> and numpy's \<^verbatim>\<open>astype(int)\<close> on a float: truncation towards zero
      (for numpy within the range of 64-bit integers; larger values are not modelled).\<close>
  "py_int x = (if 0 \<le> x then \<lfloor>x\<rfloor> else \<lceil>x\<rceil>)"

section \<open>Binary64 arithmetic\<close>

text \<open>
  Rounding to the nearest binary64 number, ties to the even significand. A non-zero real
  \<open>x\<close> with \<open>2^e \<le> \<bar>x\<bar> < 2^(e + 1)\<close> is rounded to a multiple of \<open>2^(e - 52)\<close>; below the
  normal range the spacing stays \<open>2^(- 1074)\<close>. Overflow to infinity is not modelled: all
  values that occur are far below \<open>2^1024\<close>. The operations \<open>fsub\<close>, \<open>fmul\<close> and
  \<open>fdiv\<close> are the exact operation followed by rounding, and \<open>eps13\<close> is the float that
  the literal \<^verbatim>\<open>1e-13\<close> denotes.
\<close>

definition expo :: "real \<Rightarrow> int" where
  "expo x = max \<lfloor>log 2 \<bar>x\<bar>\<rfloor> (- 1022)"

definition ulp :: "real \<Rightarrow> real" where
  "ulp x = 2 powi (expo x - 52)"

definition round_half_even :: "real \<Rightarrow> int" where
  "round_half_even y =
     (let f = \<lfloor>y\<rfloor>; d = y - real_of_int f
      in if d < 1 / 2 then f else if 1 / 2 < d then f + 1 else if even f then f else f + 1)"

definition round_double :: "real \<Rightarrow> real" where
  "round_double x =
     (if x = 0 then 0 else real_of_int (round_half_even (x / ulp x)) * ulp x)"

definition is_double :: "real \<Rightarrow> bool" where
  "is_double x \<longleftrightarrow> round_double x = x"

definition fsub :: "real \<Rightarrow> real \<Rightarrow> real" where
  "fsub a b = round_double (a - b)"

definition fmul :: "real \<Rightarrow> real \<Rightarrow> real" where
  "fmul a b = round_double (a * b)"

definition fdiv :: "real \<Rightarrow> real \<Rightarrow> real" where
  "fdiv a b = round_double (a / b)"

definition eps13 :: real where
  "eps13 = round_double (1 / 10 ^ 13)"

section \<open>Global constants of the script\<close>

definition n :: nat where "n = 100"

definition t_max :: real where "t_max = 72"

definition n_intervals :: nat where "n_intervals = 72"

definition delta_t :: real where "delta_t = t_max / real n_intervals"

definition X0 :: real where "X0 = 5 / 100"
definition P0 :: real where "P0 = 0"
definition S0 :: real where "S0 = 10"
definition V0 :: real where "V0 = 1"

section \<open>The epoch budget of the first-order optimiser\<close>

definition n_epochs_ini :: int where "n_epochs_ini = 5000"
definition n_epochs_min :: int where "n_epochs_min = 500"
definition Epoch_Tau :: real where "Epoch_Tau = 3"

definition Epoch_Decay :: "int \<Rightarrow> int" where
  "Epoch_Decay iteration_number =
     (if iteration_number < 100
      then (let n_epochs_iter = real_of_int n_epochs_ini
                                  * exp (- real_of_int iteration_number / Epoch_Tau)
            in py_int (max n_epochs_iter (real_of_int n_epochs_min)))
      else n_epochs_min)"

section \<open>The piecewise model \<^verbatim>\<open>MultiNetwork\<close>\<close>

text \<open>
  A sub-network is stored under the attribute name \<^verbatim>\<open>f"worker_{index}"\<close>. The name is
  modelled as the string Python builds: \<open>worker_\<close> followed by the decimal rendering of
  the integer, with a minus sign for a negative one.
\<close>

definition digit_char :: "nat \<Rightarrow> char" where
  "digit_char d = char_of (48 + d)"

fun str_nat :: "nat \<Rightarrow> string" where
  "str_nat k = (if k < 10 then [digit_char k]
                else str_nat (k div 10) @ [digit_char (k mod 10)])"

definition str_int :: "int \<Rightarrow> string" where
  "str_int i = (if i < 0 then CHR ''-'' # str_nat (nat (- i)) else str_nat (nat i))"

definition worker_name :: "int \<Rightarrow> string" where
  "worker_name index = ''worker_'' @ str_int index"

text \<open>
  The object holds its attributes and its registered modules by name, and the two plain
  attributes \<open>delta_t\<close> and \<open>device\<close>, which are unset until the constructor assigns
  them. The type \<open>'net\<close> is the type of sub-network values.
\<close>

record 'net MultiNetwork =
  attrs :: "string \<rightharpoonup> 'net"
  modules :: "string \<rightharpoonup> 'net"
  self_delta_t :: "real option"
  device :: "string option"

text \<open>\<^verbatim>\<open>set_network\<close>: \<^verbatim>\<open>setattr\<close> followed by \<^verbatim>\<open>add_module\<close>, both under the worker's name.\<close>

definition set_network :: "'net MultiNetwork \<Rightarrow> 'net \<Rightarrow> int \<Rightarrow> 'net MultiNetwork" where
  "set_network self net index =
     (let self = self\<lparr>attrs := (attrs self)(worker_name index \<mapsto> net)\<rparr>
      in self\<lparr>modules := (modules self)(worker_name index \<mapsto> net)\<rparr>)"

text \<open>
  The constructor registers the models of \<^verbatim>\<open>models_list\<close> under their positions
  (\<^verbatim>\<open>enumerate\<close>) and then assigns \<open>delta_t\<close> and \<open>device\<close>.
\<close>

fun init_loop :: "'net MultiNetwork \<Rightarrow> nat \<Rightarrow> 'net list \<Rightarrow> 'net MultiNetwork" where
  "init_loop self i [] = self"
| "init_loop self i (model # models_list) =
     init_loop (set_network self model (int i)) (Suc i) models_list"

definition MultiNetwork_init :: "'net list \<Rightarrow> real \<Rightarrow> string \<Rightarrow> 'net MultiNetwork" where
  "MultiNetwork_init models_list dt dev =
     (let self = \<lparr>attrs = Map.empty, modules = Map.empty, self_delta_t = None, device = None\<rparr>;
          self = init_loop self 0 models_list;
          self = self\<lparr>self_delta_t := Some dt\<rparr>
      in self\<lparr>device := Some dev\<rparr>)"

text \<open>
  Evaluation of a sub-network is a parameter \<open>net_eval\<close>: it takes a network and a column
  of times and returns the rows of outputs, or fails. \<^verbatim>\<open>_eval_interval\<close> looks the worker
  up by name; a missing attribute raises.
\<close>

definition eval_interval ::
  "('net \<Rightarrow> real list \<Rightarrow> error + real list list) \<Rightarrow> 'net MultiNetwork \<Rightarrow> int \<Rightarrow> real list
     \<Rightarrow> error + real list list" where
  "eval_interval net_eval self index input_data =
     (case attrs self (worker_name index) of
        None \<Rightarrow> Inl AttributeError
      | Some worker \<Rightarrow> net_eval worker input_data)"

text \<open>
  A list comprehension over calls that may raise: the results in order, or the first error.
  \<^verbatim>\<open>np.vstack\<close> concatenates the blocks of rows and rejects an empty list.
\<close>

fun collect :: "(error + 'a) list \<Rightarrow> error + 'a list" where
  "collect [] = Inr []"
| "collect (r # rs) =
     (case r of
        Inl e \<Rightarrow> Inl e
      | Inr x \<Rightarrow> (case collect rs of Inl e \<Rightarrow> Inl e | Inr xs \<Rightarrow> Inr (x # xs)))"

definition vstack :: "real list list list \<Rightarrow> error + real list list" where
  "vstack blocks = (if blocks = [] then Inl ValueError else Inr (concat blocks))"

text \<open>
  \<^verbatim>\<open>eval\<close> takes a column of times (a float array of shape \<open>(m, 1)\<close>). The index of a
  time is computed with the \<open>delta_t\<close> of the enclosing scope: a float division, for
  positive quotients a float subtraction of \<^verbatim>\<open>1e-13\<close> and \<^verbatim>\<open>np.floor\<close>, otherwise
  truncation. The shift multiplies the attribute \<open>self.delta_t\<close> by the index and
  subtracts the product from the time, both in floats. Each row is then passed to the
  worker of its index, in order.
\<close>

definition eval_index :: "real \<Rightarrow> int" where
  "eval_index t =
     (let eval_indices_float = fdiv t delta_t
      in if eval_indices_float > 0
         then py_int (real_of_int \<lfloor>fsub eval_indices_float eps13\<rfloor>)
         else py_int eval_indices_float)"

definition MultiNetwork_eval ::
  "('net \<Rightarrow> real list \<Rightarrow> error + real list list) \<Rightarrow> 'net MultiNetwork \<Rightarrow> real list
     \<Rightarrow> error + real list list" where
  "MultiNetwork_eval net_eval self input_data =
     (let eval_indices = map eval_index input_data
      in case self_delta_t self of
           None \<Rightarrow> Inl AttributeError
         | Some dt \<Rightarrow>
             (let input_data = map (\<lambda>(t, i). fsub t (fmul dt (real_of_int i)))
                                   (zip input_data eval_indices)
              in case collect (map (\<lambda>(i, idata). eval_interval net_eval self i [idata])
                                   (zip eval_indices input_data)) of
                   Inl e \<Rightarrow> Inl e
                 | Inr blocks \<Rightarrow> vstack blocks))"

text \<open>
  A concrete piecewise model for closed instances: sub-network \<open>k\<close> is the number \<open>k\<close>,
  and evaluating it returns, for every local time, the row of \<open>k\<close> and that time.
\<close>

definition probe_eval :: "nat \<Rightarrow> real list \<Rightarrow> error + real list list" where
  "probe_eval k input_data = Inr (map (\<lambda>t. [real k, t]) input_data)"

definition probe_multi_net :: "nat MultiNetwork" where
  "probe_multi_net = MultiNetwork_init [0..<n_intervals] delta_t ''cpu''"

section \<open>The training script\<close>

text \<open>
  The networks, the optimisers and the file format belong to the framework the script
  calls. They are parameters of the model: a record of operations over a type \<open>'net\<close> of
  network values, a type \<open>'sd\<close> of state dictionaries and a type \<open>'w\<close> that stands for
  everything outside the script (optimiser state, random generator, file system). Every
  operation that can raise returns a sum. A fit updates its network in place; here it
  returns the updated network value.
\<close>

type_synonym dataframe = "(string \<times> real list) list"

record loss_params =
  expressions :: "string list"
  constants :: "(string \<times> real) list"
  initial_input :: "real list list"
  initial_state :: "real list list"
  weights_residual :: "int list"
  initial_penalty :: real

record ('net, 'sd, 'w) framework =
  model :: "'w \<Rightarrow> error + 'net \<times> 'w"
  adam_fit :: "int \<Rightarrow> real list \<Rightarrow> loss_params \<Rightarrow> 'net \<Rightarrow> 'w \<Rightarrow> error + 'net \<times> 'w"
  lbfgs_fit :: "real list \<Rightarrow> loss_params \<Rightarrow> 'net \<Rightarrow> 'w \<Rightarrow> error + 'net \<times> 'w"
  net_eval :: "'net \<Rightarrow> real list \<Rightarrow> error + real list list"
  state_dict :: "'net \<Rightarrow> 'sd"
  load_state_dict :: "'sd \<Rightarrow> 'net \<Rightarrow> error + 'net"
  spfile_write :: "'net MultiNetwork \<Rightarrow> 'w \<Rightarrow> error + 'w"
  spfile_read :: "'w \<Rightarrow> error + 'net MultiNetwork \<times> 'w"
  read_csv :: "string \<Rightarrow> 'w \<Rightarrow> error + dataframe \<times> 'w"
  plot_charts :: "real list \<Rightarrow> real list list \<Rightarrow> dataframe \<Rightarrow> 'w \<Rightarrow> error + 'w"

text \<open>
  The completed framework calls, in the order in which they returned. The log is not a
  variable of the script; it records what a run has done when it ends or fails.
\<close>

datatype event =
    Model_built
  | Multi_built
  | Adam_fit nat int
  | Lbfgs_fit nat
  | Net_eval nat
  | Next_model nat
  | State_loaded nat
  | Network_set nat
  | Saved
  | Restored
  | Multi_eval
  | Csv_read
  | Plotted

record ('net, 'w) loop_state =
  state_t :: "real list"
  net_next :: 'net
  multi_net :: "'net MultiNetwork"
  world :: 'w
  events :: "event list"

definition f_X_C :: string where
  "f_X_C = ''D(X_C, t) - ((-Flow_Rate*X_C/Vol)     +         (mumax*S_C/(Ks + S_C))*X_C)''"
definition f_P_C :: string where
  "f_P_C = ''D(P_C, t) - ((-Flow_Rate*P_C/Vol)     +     Ypx*(mumax*S_C/(Ks + S_C))*X_C)''"
definition f_S_C :: string where
  "f_S_C = ''D(S_C, t) - ((Flow_Rate*(Sf-S_C)/Vol) - (1/Yxs)*(mumax*S_C/(Ks + S_C))*X_C)''"
definition f_Vol :: string where
  "f_Vol = ''D(Vol, t) - (Flow_Rate)''"

definition linspace :: "real \<Rightarrow> real \<Rightarrow> nat \<Rightarrow> real list" where
  \<comment> \<open>\<^verbatim>\<open>np.linspace(start, stop, num)[:, None]\<close>, a column of \<open>num\<close> points.\<close>
  "linspace start stop num =
     (if num = 1 then [start]
      else map (\<lambda>k. start + real k * ((stop - start) / real (num - 1))) [0..<num])"

definition py_last :: "'a list \<Rightarrow> error + 'a" where
  \<comment> \<open>\<^verbatim>\<open>xs[-1]\<close>: the last row, IndexError on an empty array.\<close>
  "py_last xs = (if xs = [] then Inl IndexError else Inr (last xs))"

definition make_params :: "real list \<Rightarrow> loss_params" where
  "make_params state =
     \<lparr>expressions = [f_X_C, f_P_C, f_S_C, f_Vol],
      constants = [(''mumax'', 2 / 10), (''Ks'', 1), (''Yxs'', 5 / 10), (''Ypx'', 2 / 10),
                   (''Sf'', 10), (''Flow_Rate'', 5 / 100)],
      initial_input = [[0]],
      initial_state = [state],
      weights_residual = [1, 1, 1, 1],
      initial_penalty = 5 * 10 ^ 8\<rparr>"

text \<open>
  One pass of the loop over the intervals. The residual operator is bound to the network
  being trained, which the fits receive as their own argument; the loss parameters carry
  the rest. A failing call ends the pass with the error and the log so far; \<open>net_next\<close>
  is the script's variable \<^verbatim>\<open>net_\<close>.
\<close>

definition interval_events :: "nat \<Rightarrow> event list" where
  "interval_events i =
     [Adam_fit i (Epoch_Decay (int i)), Lbfgs_fit i, Net_eval i, Next_model i,
      State_loaded i, Network_set i]"

definition loop_body ::
  "('net, 'sd, 'w) framework \<Rightarrow> nat \<Rightarrow> ('net, 'w) loop_state
     \<Rightarrow> error \<times> event list + ('net, 'w) loop_state" where
  "loop_body fw i s =
     (let net = net_next s;
          time_train = linspace 0 delta_t n;
          time_eval = linspace 0 delta_t n;
          params = make_params (state_t s);
          get_n_epochs = Epoch_Decay (int i)
      in case adam_fit fw get_n_epochs time_train params net (world s) of
           Inl e \<Rightarrow> Inl (e, events s)
         | Inr (net, w) \<Rightarrow>
        (let s = s\<lparr>world := w, events := events s @ [Adam_fit i get_n_epochs]\<rparr>
         in case lbfgs_fit fw time_train params net (world s) of
              Inl e \<Rightarrow> Inl (e, events s)
            | Inr (net, w) \<Rightarrow>
        (let s = s\<lparr>world := w, events := events s @ [Lbfgs_fit i]\<rparr>
         in case net_eval fw net time_eval of
              Inl e \<Rightarrow> Inl (e, events s)
            | Inr approximated_data \<Rightarrow>
        (let s = s\<lparr>events := events s @ [Net_eval i]\<rparr>
         in case py_last approximated_data of
              Inl e \<Rightarrow> Inl (e, events s)
            | Inr row \<Rightarrow>
        (let s = s\<lparr>state_t := row\<rparr>
         in case model fw (world s) of
              Inl e \<Rightarrow> Inl (e, events s)
            | Inr (fresh, w) \<Rightarrow>
        (let s = s\<lparr>net_next := fresh, world := w, events := events s @ [Next_model i]\<rparr>
         in case load_state_dict fw (state_dict fw net) (net_next s) of
              Inl e \<Rightarrow> Inl (e, events s)
            | Inr loaded \<Rightarrow>
        (let s = s\<lparr>net_next := loaded, events := events s @ [State_loaded i]\<rparr>
         in Inr (s\<lparr>multi_net := set_network (multi_net s) net (int i),
                   events := events s @ [Network_set i]\<rparr>))))))))"

text \<open>\<^verbatim>\<open>for i in range(0, int(n_intervals), 1)\<close>: the passes in order, stopping at a failure.\<close>

fun run_intervals ::
  "('net, 'sd, 'w) framework \<Rightarrow> nat list \<Rightarrow> ('net, 'w) loop_state
     \<Rightarrow> error \<times> event list + ('net, 'w) loop_state" where
  "run_intervals fw [] s = Inr s"
| "run_intervals fw (i # rest) s =
     (case loop_body fw i s of
        Inl failure \<Rightarrow> Inl failure
      | Inr s' \<Rightarrow> run_intervals fw rest s')"

definition training_loop ::
  "('net, 'sd, 'w) framework \<Rightarrow> ('net, 'w) loop_state
     \<Rightarrow> error \<times> event list + ('net, 'w) loop_state" where
  "training_loop fw s = run_intervals fw [0..<n_intervals] s"

text \<open>
  \<^verbatim>\<open>model_()\<close> builds \<open>n_intervals\<close> sub-models, one call after the other, and wraps them
  into a \<^verbatim>\<open>MultiNetwork\<close> with the default device.
\<close>

fun build_models ::
  "('net, 'sd, 'w) framework \<Rightarrow> nat \<Rightarrow> 'w \<Rightarrow> error + 'net list \<times> 'w" where
  "build_models fw 0 w = Inr ([], w)"
| "build_models fw (Suc k) w =
     (case model fw w of
        Inl e \<Rightarrow> Inl e
      | Inr (sub, w) \<Rightarrow>
          (case build_models fw k w of
             Inl e \<Rightarrow> Inl e
           | Inr (models_list, w) \<Rightarrow> Inr (sub # models_list, w)))"

definition model_multi ::
  "('net, 'sd, 'w) framework \<Rightarrow> 'w \<Rightarrow> error + 'net MultiNetwork \<times> 'w" where
  "model_multi fw w =
     (case build_models fw n_intervals w of
        Inl e \<Rightarrow> Inl e
      | Inr (models_list, w) \<Rightarrow> Inr (MultiNetwork_init models_list delta_t ''cpu'', w))"

text \<open>
  The script takes the parsed value of \<^verbatim>\<open>--train\<close>, overwrites it, and runs the training
  branch or the restore branch. Both return the final world and the log, or an error with
  the log at the point of failure.
\<close>

definition start_state :: "'net \<Rightarrow> 'net MultiNetwork \<Rightarrow> 'w \<Rightarrow> ('net, 'w) loop_state" where
  "start_state first_net mn w =
     \<lparr>state_t = [X0, P0, S0, V0], net_next = first_net, multi_net = mn, world = w,
      events = [Model_built, Multi_built]\<rparr>"

definition train_branch ::
  "('net, 'sd, 'w) framework \<Rightarrow> 'w \<Rightarrow> error \<times> event list + 'w \<times> event list" where
  "train_branch fw w =
     (case model fw w of
        Inl e \<Rightarrow> Inl (e, [])
      | Inr (first_net, w) \<Rightarrow>
     (case model_multi fw w of
        Inl e \<Rightarrow> Inl (e, [Model_built])
      | Inr (mn, w) \<Rightarrow>
     (case training_loop fw (start_state first_net mn w) of
        Inl failure \<Rightarrow> Inl failure
      | Inr s \<Rightarrow>
     (case spfile_write fw (multi_net s) (world s) of
        Inl e \<Rightarrow> Inl (e, events s)
      | Inr w \<Rightarrow> Inr (w, events s @ [Saved])))))"

definition restore_branch ::
  "('net, 'sd, 'w) framework \<Rightarrow> 'w \<Rightarrow> error \<times> event list + 'w \<times> event list" where
  "restore_branch fw w =
     (case spfile_read fw w of
        Inl e \<Rightarrow> Inl (e, [])
      | Inr (mn, w) \<Rightarrow>
     (let time_plot = linspace 0 t_max 1000
      in case MultiNetwork_eval (net_eval fw) mn time_plot of
           Inl e \<Rightarrow> Inl (e, [Restored])
         | Inr approximated_data_plot \<Rightarrow>
     (case read_csv fw ''Bioreactor_ODEs.csv'' w of
        Inl e \<Rightarrow> Inl (e, [Restored, Multi_eval])
      | Inr (ODE_Results, w) \<Rightarrow>
     (case plot_charts fw time_plot approximated_data_plot ODE_Results w of
        Inl e \<Rightarrow> Inl (e, [Restored, Multi_eval, Csv_read])
      | Inr w \<Rightarrow> Inr (w, [Restored, Multi_eval, Csv_read, Plotted])))))"

definition script ::
  "('net, 'sd, 'w) framework \<Rightarrow> string \<Rightarrow> 'w \<Rightarrow> error \<times> event list + 'w \<times> event list" where
  "script fw args_train w =
     (let train = args_train;
          train = ''yes''
      in if train = ''yes'' then train_branch fw w else restore_branch fw w)"

text \<open>
  A sub-network is trained on the local times \<open>linspace 0 delta_t n\<close>, and evaluation of the
  piecewise model subtracts the offset \<open>delta_t * i\<close> before \<open>worker_i\<close> sees a time. The
  interval of sub-network \<open>i\<close> consists of the global times whose local time lies within
  the span of the training grid.
\<close>

definition local_domain :: "real set" where
  "local_domain = {hd (linspace 0 delta_t n) .. last (linspace 0 delta_t n)}"

definition interval :: "nat \<Rightarrow> real set" where
  "interval i = {t. t - delta_t * real i \<in> local_domain}"

section \<open>A small framework instance\<close>

text \<open>
  A network is a serial number with one integer parameter. Building a model takes the next
  serial number from the world, each fit adds one to the parameter, evaluation returns a
  single row holding the parameter, and the state dictionary is the parameter. The second
  instance is the same except that the L-BFGS-B fit fails once the parameter has reached 5,
  which happens in interval 2.
\<close>

definition toy :: "(nat \<times> int, int, nat) framework" where
  "toy =
     \<lparr>model = (\<lambda>w. Inr ((w, 0), Suc w)),
      adam_fit = (\<lambda>n_epochs input_data params net w. Inr ((fst net, snd net + 1), w)),
      lbfgs_fit = (\<lambda>input_data params net w. Inr ((fst net, snd net + 1), w)),
      net_eval = (\<lambda>net input_data. Inr [[real_of_int (snd net)]]),
      state_dict = snd,
      load_state_dict = (\<lambda>sd net. Inr (fst net, sd)),
      spfile_write = (\<lambda>mn w. Inr w),
      spfile_read = (\<lambda>w. Inl (External ''no saved model'')),
      read_csv = (\<lambda>name w. Inr ([], w)),
      plot_charts = (\<lambda>time_plot approximated ode w. Inr w)\<rparr>"

definition toy_diverging :: "(nat \<times> int, int, nat) framework" where
  "toy_diverging =
     toy\<lparr>lbfgs_fit := (\<lambda>input_data params net w.
            if 5 \<le> snd net then Inl (External ''diverged'')
            else Inr ((fst net, snd net + 1), w))\<rparr>"

definition toy_start :: "(nat \<times> int, nat) loop_state" where
  "toy_start = start_state (0, 0) (MultiNetwork_init (map (\<lambda>k. (Suc k, 0)) [0..<n_intervals])
                                     delta_t ''cpu'') (Suc n_intervals)"

section \<open>Properties of the epoch budget\<close>

lemma py_int_nonneg: "0 \<le> x \<Longrightarrow> py_int x = \<lfloor>x\<rfloor>"
  by (simp add: py_int_def)

lemma floor_max_int: "\<lfloor>max x (real_of_int k)\<rfloor> = max \<lfloor>x\<rfloor> k"
proof (cases "x \<le> real_of_int k")
  case True
  then have "\<lfloor>x\<rfloor> \<le> k" by (simp add: floor_le_iff)
  with True show ?thesis by (simp add: max_def)
next
  case False
  then have "k \<le> \<lfloor>x\<rfloor>" by (simp add: le_floor_iff)
  with False show ?thesis by (simp add: max_def)
qed

lemma Epoch_Decay_low:
  "i < 100 \<Longrightarrow> Epoch_Decay i = max \<lfloor>5000 * exp (- real_of_int i / 3)\<rfloor> 500"
proof -
  assume a: "i < 100"
  have "(0::real) \<le> max (5000 * exp (- real_of_int i / 3)) 500" by simp
  then have "py_int (max (5000 * exp (- real_of_int i / 3)) 500)
               = \<lfloor>max (5000 * exp (- real_of_int i / 3)) (real_of_int 500)\<rfloor>"
    by (simp add: py_int_nonneg)
  also have "\<dots> = max \<lfloor>5000 * exp (- real_of_int i / 3)\<rfloor> 500"
    by (rule floor_max_int)
  finally show ?thesis using a
    by (simp add: Epoch_Decay_def n_epochs_ini_def n_epochs_min_def Epoch_Tau_def)
qed

lemma Epoch_Decay_high: "100 \<le> i \<Longrightarrow> Epoch_Decay i = 500"
  by (simp add: Epoch_Decay_def n_epochs_min_def)

lemma Epoch_Decay_ge_min: "500 \<le> Epoch_Decay i"
  by (cases "i < 100") (simp_all add: Epoch_Decay_low Epoch_Decay_high)

lemma Epoch_Decay_le_ini:
  assumes "0 \<le> i"
  shows "Epoch_Decay i \<le> 5000"
proof (cases "i < 100")
  case True
  have "exp (- real_of_int i / 3) \<le> 1" using assms by simp
  then have "5000 * exp (- real_of_int i / 3) \<le> (5000::real)" by simp
  then have "\<lfloor>5000 * exp (- real_of_int i / 3)\<rfloor> \<le> \<lfloor>5000::real\<rfloor>"
    by (rule floor_mono)
  then have "\<lfloor>5000 * exp (- real_of_int i / 3)\<rfloor> \<le> 5000" by simp
  with True show ?thesis by (simp add: Epoch_Decay_low)
next
  case False
  then show ?thesis by (simp add: Epoch_Decay_high)
qed

lemma Epoch_Decay_antimono:
  assumes "i \<le> j"
  shows "Epoch_Decay j \<le> Epoch_Decay i"
proof (cases "j < 100")
  case True
  with assms have i: "i < 100" by simp
  have "exp (- real_of_int j / 3) \<le> exp (- real_of_int i / 3)" using assms by simp
  then have "5000 * exp (- real_of_int j / 3) \<le> 5000 * exp (- real_of_int i / 3)" by simp
  then have "\<lfloor>5000 * exp (- real_of_int j / 3)\<rfloor> \<le> \<lfloor>5000 * exp (- real_of_int i / 3)\<rfloor>"
    by (rule floor_mono)
  with True i show ?thesis by (simp add: Epoch_Decay_low)
next
  case False
  then show ?thesis using Epoch_Decay_ge_min [of i] by (simp add: Epoch_Decay_high)
qed

lemma Epoch_Decay_zero: "Epoch_Decay 0 = 5000"
  by (simp add: Epoch_Decay_low)

text \<open>
  Claim C3. For every iteration index \<open>i \<ge> 0\<close> the ADAM epoch budget is
  \<open>max (int (5000 * exp (- i / 3))) 500\<close> below index 100 and \<open>500\<close> from index 100 on;
  it never increases with the index, stays between 500 and 5000, and is 5000 at index 0.
\<close>

theorem Epoch_Decay_budget:
  assumes "0 \<le> i"
  shows "Epoch_Decay i = (if i < 100 then max (py_int (5000 * exp (- real_of_int i / 3))) 500
                          else 500)
         \<and> (\<forall>j. i \<le> j \<longrightarrow> Epoch_Decay j \<le> Epoch_Decay i)
         \<and> 500 \<le> Epoch_Decay i \<and> Epoch_Decay i \<le> 5000
         \<and> Epoch_Decay 0 = 5000"
proof -
  have "(0::real) \<le> 5000 * exp (- real_of_int i / 3)" by simp
  then have "py_int (5000 * exp (- real_of_int i / 3)) = \<lfloor>5000 * exp (- real_of_int i / 3)\<rfloor>"
    by (rule py_int_nonneg)
  then have "Epoch_Decay i
      = (if i < 100 then max (py_int (5000 * exp (- real_of_int i / 3))) 500 else 500)"
    by (simp add: Epoch_Decay_low Epoch_Decay_high)
  moreover have "\<forall>j. i \<le> j \<longrightarrow> Epoch_Decay j \<le> Epoch_Decay i"
    by (simp add: Epoch_Decay_antimono)
  ultimately show ?thesis
    using Epoch_Decay_ge_min [of i] Epoch_Decay_le_ini [OF assms] Epoch_Decay_zero by simp
qed

theorem Epoch_Decay_budget_witness:
  "Epoch_Decay 100 = 500 \<and> Epoch_Decay 250 \<le> Epoch_Decay 100
   \<and> 500 \<le> Epoch_Decay 100 \<and> Epoch_Decay 100 \<le> 5000 \<and> Epoch_Decay 0 = 5000"
  using Epoch_Decay_budget [of 100] by auto


section \<open>Properties of binary64 rounding\<close>

lemma rhe_of_int: "round_half_even (real_of_int k) = k"
  by (simp add: round_half_even_def)

lemma rhe_ge_floor: "\<lfloor>y\<rfloor> \<le> round_half_even y"
  by (simp add: round_half_even_def Let_def)

lemma rhe_le_floor_Suc: "round_half_even y \<le> \<lfloor>y\<rfloor> + 1"
  by (simp add: round_half_even_def Let_def)

lemma rhe_ge: "real_of_int K \<le> y \<Longrightarrow> K \<le> round_half_even y"
proof -
  assume "real_of_int K \<le> y"
  then have "K \<le> \<lfloor>y\<rfloor>" by (simp add: le_floor_iff)
  with rhe_ge_floor [of y] show ?thesis by simp
qed

lemma rhe_le: "y \<le> real_of_int K \<Longrightarrow> round_half_even y \<le> K"
proof (cases "y = real_of_int K")
  case True
  then show ?thesis by (simp add: rhe_of_int)
next
  case False
  assume "y \<le> real_of_int K"
  with False have "y < real_of_int K" by simp
  then have "\<lfloor>y\<rfloor> < K" by (simp add: floor_less_iff)
  with rhe_le_floor_Suc [of y] show ?thesis by simp
qed

lemma rhe_err: "\<bar>real_of_int (round_half_even y) - y\<bar> \<le> 1 / 2"
proof -
  have "real_of_int \<lfloor>y\<rfloor> \<le> y" "y < real_of_int \<lfloor>y\<rfloor> + 1" by linarith+
  then show ?thesis by (auto simp add: round_half_even_def Let_def)
qed

lemma rhe_near_ge: "real_of_int K - 1 / 2 < y \<Longrightarrow> K \<le> round_half_even y"
proof (cases "real_of_int K \<le> y")
  case True
  then show ?thesis by (rule rhe_ge)
next
  case False
  assume a: "real_of_int K - 1 / 2 < y"
  have "\<lfloor>y\<rfloor> = K - 1" by (rule floor_unique) (use a False in simp_all)
  then show ?thesis using a by (simp add: round_half_even_def Let_def)
qed

lemma two_powi_pos: "0 < (2::real) powi k"
  by simp

lemma two_powr_powi: "(2::real) powr real_of_int k = 2 powi k"
  by (rule powr_real_of_int') simp_all

lemma expo_lower: "- 1022 \<le> expo x"
  by (simp add: expo_def)

lemma abs_less_powi_expo:
  assumes "x \<noteq> 0"
  shows "\<bar>x\<bar> < 2 powi (expo x + 1)"
proof -
  have p: "0 < \<bar>x\<bar>" using assms by simp
  have "log 2 \<bar>x\<bar> < real_of_int (\<lfloor>log 2 \<bar>x\<bar>\<rfloor> + 1)" by linarith
  also have "\<dots> \<le> real_of_int (expo x + 1)" by (simp add: expo_def)
  finally have "log 2 \<bar>x\<bar> < real_of_int (expo x + 1)" .
  then have "\<bar>x\<bar> < 2 powr real_of_int (expo x + 1)"
    using p by (simp add: log_less_iff)
  then show ?thesis by (simp only: two_powr_powi)
qed

lemma expo_le:
  assumes "x \<noteq> 0" and "\<bar>x\<bar> < 2 powi (E + 1)" and "- 1022 \<le> E"
  shows "expo x \<le> E"
proof -
  have p: "0 < \<bar>x\<bar>" using assms(1) by simp
  from assms(2) have "\<bar>x\<bar> < 2 powr real_of_int (E + 1)" by (simp only: two_powr_powi)
  then have "log 2 \<bar>x\<bar> < real_of_int (E + 1)" using p by (simp add: log_less_iff)
  then have "\<lfloor>log 2 \<bar>x\<bar>\<rfloor> < E + 1" by (simp only: floor_less_iff)
  with assms(3) show ?thesis by (simp add: expo_def)
qed

lemma expo_ge:
  assumes "x \<noteq> 0" and "2 powi e \<le> \<bar>x\<bar>"
  shows "e \<le> expo x"
proof -
  have p: "0 < \<bar>x\<bar>" using assms(1) by simp
  from assms(2) have "2 powr real_of_int e \<le> \<bar>x\<bar>" by (simp only: two_powr_powi)
  then have "real_of_int e \<le> log 2 \<bar>x\<bar>" using p by (simp add: le_log_iff)
  then have "e \<le> \<lfloor>log 2 \<bar>x\<bar>\<rfloor>" by (simp add: le_floor_iff)
  then show ?thesis by (simp add: expo_def)
qed

lemma expo_eq:
  assumes "2 powi e \<le> \<bar>x\<bar>" and "\<bar>x\<bar> < 2 powi (e + 1)" and "- 1022 \<le> e"
  shows "expo x = e"
proof -
  have "x \<noteq> 0"
  proof
    assume "x = 0"
    with assms(1) have "(2::real) powi e \<le> 0" by simp
    with two_powi_pos [of e] show False by linarith
  qed
  from expo_le [OF this assms(2,3)] expo_ge [OF this assms(1)] show ?thesis by simp
qed

lemma ulp_pos: "0 < ulp x"
  by (simp add: ulp_def)

lemma powi_split:
  assumes "a \<le> b"
  shows "(2::real) powi b = real_of_int (2 ^ nat (b - a)) * 2 powi a"
proof -
  have "(2::real) powi b = 2 powi ((b - a) + a)" by simp
  also have "\<dots> = 2 powi (b - a) * 2 powi a" by (rule power_int_add) simp
  also have "(2::real) powi (b - a) = 2 ^ nat (b - a)" using assms by (simp add: power_int_def)
  finally show ?thesis by simp
qed

lemma grid_as_ulp:
  assumes "x \<noteq> 0" and "\<bar>x\<bar> < 2 powi (j + 53)" and "- 1074 \<le> j"
  shows "real_of_int K * 2 powi j = real_of_int (K * 2 ^ nat (j - (expo x - 52))) * ulp x"
proof -
  have "expo x \<le> j + 52" using assms by (intro expo_le) (simp_all add: add.commute)
  then have "expo x - 52 \<le> j" by simp
  from powi_split [OF this] show ?thesis by (simp add: ulp_def)
qed

lemma round_double_le_grid:
  assumes "\<bar>x\<bar> < 2 powi (j + 53)" and "- 1074 \<le> j" and "x \<le> real_of_int K * 2 powi j"
  shows "round_double x \<le> real_of_int K * 2 powi j"
proof (cases "x = 0")
  case True
  with assms(3) show ?thesis by (simp add: round_double_def)
next
  case False
  let ?K = "K * 2 ^ nat (j - (expo x - 52))"
  have g: "real_of_int K * 2 powi j = real_of_int ?K * ulp x"
    using False assms(1,2) by (rule grid_as_ulp)
  with assms(3) have "x \<le> real_of_int ?K * ulp x" by simp
  then have "x / ulp x \<le> real_of_int ?K" using ulp_pos [of x] by (simp add: pos_divide_le_eq)
  then have "round_half_even (x / ulp x) \<le> ?K" by (rule rhe_le)
  then have "real_of_int (round_half_even (x / ulp x)) \<le> real_of_int ?K"
    by (simp only: of_int_le_iff)
  then have h: "real_of_int (round_half_even (x / ulp x)) * ulp x \<le> real_of_int ?K * ulp x"
    using ulp_pos [of x] by (simp only: mult_le_cancel_right_pos)
  have r: "round_double x = real_of_int (round_half_even (x / ulp x)) * ulp x"
    using False by (simp add: round_double_def)
  show ?thesis by (simp only: r g h)
qed

lemma round_double_ge_grid:
  assumes "\<bar>x\<bar> < 2 powi (j + 53)" and "- 1074 \<le> j" and "real_of_int K * 2 powi j \<le> x"
  shows "real_of_int K * 2 powi j \<le> round_double x"
proof (cases "x = 0")
  case True
  with assms(3) show ?thesis by (simp add: round_double_def)
next
  case False
  let ?K = "K * 2 ^ nat (j - (expo x - 52))"
  have g: "real_of_int K * 2 powi j = real_of_int ?K * ulp x"
    using False assms(1,2) by (rule grid_as_ulp)
  with assms(3) have "real_of_int ?K * ulp x \<le> x" by simp
  then have "real_of_int ?K \<le> x / ulp x" using ulp_pos [of x] by (simp add: pos_le_divide_eq)
  then have "?K \<le> round_half_even (x / ulp x)" by (rule rhe_ge)
  then have "real_of_int ?K \<le> real_of_int (round_half_even (x / ulp x))"
    by (simp only: of_int_le_iff)
  then have h: "real_of_int ?K * ulp x \<le> real_of_int (round_half_even (x / ulp x)) * ulp x"
    using ulp_pos [of x] by (simp only: mult_le_cancel_right_pos)
  have r: "round_double x = real_of_int (round_half_even (x / ulp x)) * ulp x"
    using False by (simp add: round_double_def)
  show ?thesis by (simp only: r g h)
qed

lemma round_double_exact:
  assumes "x = real_of_int K * 2 powi j" and "\<bar>x\<bar> < 2 powi (j + 53)" and "- 1074 \<le> j"
  shows "round_double x = x"
proof -
  have "round_double x \<le> real_of_int K * 2 powi j"
    using assms by (intro round_double_le_grid) simp_all
  moreover have "real_of_int K * 2 powi j \<le> round_double x"
    using assms by (intro round_double_ge_grid) simp_all
  ultimately show ?thesis using assms(1) by simp
qed

lemma round_double_int:
  assumes "\<bar>real_of_int i\<bar> < 2 ^ 53"
  shows "round_double (real_of_int i) = real_of_int i"
  using assms by (intro round_double_exact [of _ i 0]) simp_all

lemma round_double_err:
  assumes "\<bar>x\<bar> < 2 powi (E + 1)" and "- 1022 \<le> E"
  shows "\<bar>round_double x - x\<bar> \<le> 2 powi (E - 53)"
proof (cases "x = 0")
  case True
  then show ?thesis by (simp add: round_double_def)
next
  case False
  have e: "expo x \<le> E" using False assms by (rule expo_le)
  have "round_double x - x = (real_of_int (round_half_even (x / ulp x)) - x / ulp x) * ulp x"
    using False ulp_pos [of x] by (simp add: round_double_def algebra_simps)
  then have "\<bar>round_double x - x\<bar>
      = \<bar>real_of_int (round_half_even (x / ulp x)) - x / ulp x\<bar> * ulp x"
    using ulp_pos [of x] by (simp add: abs_mult)
  also have "\<dots> \<le> (1 / 2) * ulp x"
    using rhe_err [of "x / ulp x"] ulp_pos [of x] by (intro mult_right_mono) simp_all
  also have "\<dots> = 2 powi (expo x - 53)"
  proof -
    have "(2::real) powi (expo x - 52) = 2 powi ((expo x - 53) + 1)" by simp
    also have "\<dots> = 2 powi (expo x - 53) * 2" by (subst power_int_add) simp_all
    finally show ?thesis by (simp add: ulp_def)
  qed
  also have "\<dots> \<le> 2 powi (E - 53)" using e by (intro power_int_increasing) simp_all
  finally show ?thesis .
qed

lemma round_double_zero: "round_double 0 = 0"
  by (simp add: round_double_def)

lemma round_double_nonneg:
  assumes "0 \<le> x"
  shows "0 \<le> round_double x"
proof (cases "x = 0")
  case True
  then show ?thesis by (simp add: round_double_def)
next
  case False
  have "real_of_int 0 \<le> x / ulp x" using assms ulp_pos [of x] by simp
  then have "0 \<le> round_half_even (x / ulp x)" by (rule rhe_ge)
  then show ?thesis using False ulp_pos [of x] by (simp add: round_double_def)
qed

lemma ulp_le_abs:
  assumes "2 powi (- 1074) \<le> \<bar>x\<bar>"
  shows "ulp x \<le> \<bar>x\<bar>"
proof (cases "- 1022 \<le> \<lfloor>log 2 \<bar>x\<bar>\<rfloor>")
  case True
  have p: "0 < \<bar>x\<bar>" using assms two_powi_pos [of "- 1074"] by linarith
  from True have e: "expo x = \<lfloor>log 2 \<bar>x\<bar>\<rfloor>" by (simp add: expo_def)
  have "real_of_int (expo x) \<le> log 2 \<bar>x\<bar>" unfolding e by linarith
  then have "2 powr real_of_int (expo x) \<le> \<bar>x\<bar>" using p by (simp add: le_log_iff)
  then have "2 powi (expo x) \<le> \<bar>x\<bar>" by (simp only: two_powr_powi)
  moreover have "(2::real) powi (expo x - 52) \<le> 2 powi (expo x)"
    by (intro power_int_increasing) simp_all
  ultimately show ?thesis by (simp add: ulp_def)
next
  case False
  then have "expo x = - 1022" by (simp add: expo_def)
  with assms show ?thesis by (simp add: ulp_def)
qed

lemma round_double_negative:
  assumes "x \<le> - (2 powi (- 1074))"
  shows "round_double x < 0"
proof -
  have neg: "x < 0" using assms two_powi_pos [of "- 1074"] by linarith
  then have "2 powi (- 1074) \<le> \<bar>x\<bar>" using assms by simp
  from ulp_le_abs [OF this] neg have "ulp x \<le> - x" by simp
  then have "x / ulp x \<le> real_of_int (- 1)"
    using ulp_pos [of x] by (simp add: pos_divide_le_eq)
  then have "round_half_even (x / ulp x) \<le> - 1" by (rule rhe_le)
  then have "real_of_int (round_half_even (x / ulp x)) < 0" by simp
  then have "real_of_int (round_half_even (x / ulp x)) * ulp x < 0"
    using ulp_pos [of x] by (simp add: mult_less_0_iff)
  with neg show ?thesis by (simp add: round_double_def)
qed

lemma is_double_grid:
  assumes "is_double t" and "t \<noteq> 0"
  shows "t = real_of_int (round_half_even (t / ulp t)) * 2 powi (expo t - 52)"
  using assms by (simp add: is_double_def round_double_def ulp_def)

lemma is_double_min_grid:
  assumes "is_double t"
  shows "\<exists>K. t = real_of_int K * 2 powi (- 1074)"
proof (cases "t = 0")
  case True
  then have "t = real_of_int 0 * 2 powi (- 1074)" by simp
  then show ?thesis by blast
next
  case False
  let ?M = "round_half_even (t / ulp t)"
  have "- 1074 \<le> expo t - 52" using expo_lower [of t] by simp
  from powi_split [OF this]
  have "(2::real) powi (expo t - 52)
          = real_of_int (2 ^ nat (expo t - 52 - (- 1074))) * 2 powi (- 1074)" .
  with is_double_grid [OF assms False]
  have "t = real_of_int (?M * 2 ^ nat (expo t - 52 - (- 1074))) * 2 powi (- 1074)"
    by simp
  then show ?thesis by blast
qed

lemma round_double_sub_int:
  assumes "is_double t" and "\<bar>t\<bar> < 2 ^ 53" and "\<bar>t - real_of_int i\<bar> \<le> \<bar>t\<bar>"
  shows "round_double (t - real_of_int i) = t - real_of_int i"
proof (cases "t = 0")
  case True
  with assms(3) have "i = 0" by simp
  with True show ?thesis by (simp add: round_double_def)
next
  case False
  let ?M = "round_half_even (t / ulp t)"
  let ?j = "expo t - 52"
  have "\<bar>t\<bar> < 2 powi (52 + 1)" using assms(2) by simp
  with False have "expo t \<le> 52" by (rule expo_le) simp
  then have "?j \<le> 0" by simp
  from powi_split [OF this]
  have one: "(1::real) = real_of_int (2 ^ nat (0 - ?j)) * 2 powi ?j" by simp
  have "real_of_int i = real_of_int i * 1" by simp
  also have "\<dots> = real_of_int (i * 2 ^ nat (0 - ?j)) * 2 powi ?j"
    by (subst one) simp
  finally have i: "real_of_int i = real_of_int (i * 2 ^ nat (0 - ?j)) * 2 powi ?j" .
  have t: "t = real_of_int ?M * 2 powi ?j" using assms(1) False by (rule is_double_grid)
  have x: "t - real_of_int i = real_of_int (?M - i * 2 ^ nat (0 - ?j)) * 2 powi ?j"
    by (subst t, subst i) (simp add: algebra_simps)
  have lt: "\<bar>t\<bar> < 2 powi (expo t + 1)" using False by (rule abs_less_powi_expo)
  have jj: "?j + 53 = expo t + 1" by simp
  have b: "\<bar>t - real_of_int i\<bar> < 2 powi (?j + 53)"
    unfolding jj using assms(3) lt by linarith
  have "- 1074 \<le> ?j" using expo_lower [of t] by simp
  with x b show ?thesis by (intro round_double_exact [of _ "?M - i * 2 ^ nat (0 - ?j)" ?j])
qed

lemma eps13_value: "eps13 = 3961408125713217 / 2 ^ 95"
proof -
  have e: "expo (1 / 10000000000000) = - 44" by (rule expo_eq) simp_all
  have u: "ulp (1 / 10000000000000) = 1 / 2 ^ 96"
    by (simp add: ulp_def e power_int_minus_divide)
  have "round_half_even ((1 / 10000000000000) / (1 / 2 ^ 96)) = 7922816251426434"
    by (simp add: round_half_even_def Let_def)
  then have "round_double (1 / 10000000000000) = 7922816251426434 * (1 / 2 ^ 96)"
    by (simp only: round_double_def u) simp
  then show ?thesis by (simp add: eps13_def)
qed

lemma round_double_normal:
  assumes "2 powi e \<le> \<bar>x\<bar>" and "\<bar>x\<bar> < 2 powi (e + 1)" and "- 1022 \<le> e"
  shows "round_double x
           = real_of_int (round_half_even (x / 2 powi (e - 52))) * 2 powi (e - 52)"
proof -
  have "x \<noteq> 0"
  proof
    assume "x = 0"
    with assms(1) have "(2::real) powi e \<le> 0" by simp
    with two_powi_pos [of e] show False by linarith
  qed
  then show ?thesis by (simp add: round_double_def ulp_def expo_eq [OF assms])
qed

section \<open>Worker names are injective\<close>

declare str_nat.simps [simp del]

lemma digit_char_inj: "a < 10 \<Longrightarrow> b < 10 \<Longrightarrow> digit_char a = digit_char b \<Longrightarrow> a = b"
  by (simp add: digit_char_def char_of_eq_iff take_bit_eq_mod)

lemma digit_char_not_minus: "d < 10 \<Longrightarrow> digit_char d \<noteq> CHR ''-''"
  by (auto simp add: digit_char_def char_of_eq_iff take_bit_eq_mod)

lemma str_nat_nonempty: "str_nat k \<noteq> []"
  by (subst str_nat.simps) simp

lemma str_nat_inj: "str_nat a = str_nat b \<Longrightarrow> a = b"
proof (induction a arbitrary: b rule: str_nat.induct)
  case (1 k)
  show ?case
  proof (cases "k < 10")
    case True
    show ?thesis
    proof (cases "b < 10")
      case b: True
      from "1.prems" True b have "digit_char k = digit_char b"
        by (simp add: str_nat.simps [of k] str_nat.simps [of b])
      with True b show ?thesis by (rule digit_char_inj)
    next
      case b: False
      from "1.prems" True b show ?thesis
        using str_nat_nonempty [of "b div 10"]
        by (simp add: str_nat.simps [of k] str_nat.simps [of b])
    qed
  next
    case False
    show ?thesis
    proof (cases "b < 10")
      case b: True
      from "1.prems" False b show ?thesis
        using str_nat_nonempty [of "k div 10"]
        by (simp add: str_nat.simps [of k] str_nat.simps [of b])
    next
      case b: False
      from "1.prems" False b
      have e: "str_nat (k div 10) = str_nat (b div 10)" "digit_char (k mod 10) = digit_char (b mod 10)"
        by (simp_all add: str_nat.simps [of k] str_nat.simps [of b])
      from "1.IH" [OF False e(1)] have "k div 10 = b div 10" .
      moreover have "k mod 10 < 10" "b mod 10 < 10" by simp_all
      then have "k mod 10 = b mod 10" using e(2) by (rule digit_char_inj)
      ultimately show ?thesis by (metis div_mult_mod_eq)
    qed
  qed
qed

lemma str_nat_hd_not_minus: "hd (str_nat k) \<noteq> CHR ''-''"
proof (induction k rule: str_nat.induct)
  case (1 k)
  show ?case
  proof (cases "k < 10")
    case True
    then show ?thesis by (simp add: str_nat.simps [of k] digit_char_not_minus)
  next
    case False
    with 1 show ?thesis
      using str_nat_nonempty [of "k div 10"] by (simp add: str_nat.simps [of k])
  qed
qed

lemma str_int_inj: "str_int a = str_int b \<Longrightarrow> a = b"
proof -
  assume e: "str_int a = str_int b"
  have ne: "\<And>k m. CHR ''-'' # str_nat k \<noteq> str_nat m"
  proof
    fix k m assume "CHR ''-'' # str_nat k = str_nat m"
    then have "hd (str_nat m) = CHR ''-''" by (metis list.sel(1))
    then show False using str_nat_hd_not_minus by blast
  qed
  show ?thesis
  proof (cases "a < 0")
    case True
    show ?thesis
    proof (cases "b < 0")
      case b: True
      with True e have "nat (- a) = nat (- b)" by (simp add: str_int_def str_nat_inj)
      with True b show ?thesis by simp
    next
      case b: False
      with True e ne show ?thesis by (simp add: str_int_def)
    qed
  next
    case False
    show ?thesis
    proof (cases "b < 0")
      case b: True
      with False e ne [of "nat (- b)" "nat a"] show ?thesis by (simp add: str_int_def)
    next
      case b: False
      with False e have "nat a = nat b" by (simp add: str_int_def str_nat_inj)
      with False b show ?thesis by simp
    qed
  qed
qed

lemma worker_name_eq_iff: "worker_name i = worker_name j \<longleftrightarrow> i = j"
  by (auto simp add: worker_name_def dest: str_int_inj)

section \<open>The piecewise model: registration and lookup\<close>

lemma delta_t_one: "delta_t = 1"
  by (simp add: delta_t_def t_max_def n_intervals_def)

lemma py_int_of_int: "py_int (real_of_int k) = k"
  by (simp add: py_int_def)

lemma set_network_attrs:
  "attrs (set_network self net index) = (attrs self)(worker_name index \<mapsto> net)"
  by (simp add: set_network_def)

lemma set_network_modules:
  "modules (set_network self net index) = (modules self)(worker_name index \<mapsto> net)"
  by (simp add: set_network_def)

lemma set_network_fields:
  "self_delta_t (set_network self net index) = self_delta_t self"
  "device (set_network self net index) = device self"
  by (simp_all add: set_network_def)

lemma init_loop_other:
  "(\<And>k. k < length ms \<Longrightarrow> name \<noteq> worker_name (int (i + k)))
    \<Longrightarrow> attrs (init_loop self i ms) name = attrs self name"
proof (induction ms arbitrary: self i)
  case Nil
  then show ?case by simp
next
  case (Cons m ms)
  have "attrs (init_loop (set_network self m (int i)) (Suc i) ms) name
          = attrs (set_network self m (int i)) name"
  proof (rule Cons.IH)
    fix k assume "k < length ms"
    then show "name \<noteq> worker_name (int (Suc i + k))"
      using Cons.prems [of "Suc k"] by simp
  qed
  moreover have "name \<noteq> worker_name (int i)" using Cons.prems [of 0] by simp
  ultimately show ?case by (simp add: set_network_attrs)
qed

lemma init_loop_worker:
  "k < length ms \<Longrightarrow> attrs (init_loop self i ms) (worker_name (int (i + k))) = Some (ms ! k)"
proof (induction ms arbitrary: self i k)
  case Nil
  then show ?case by simp
next
  case (Cons m ms)
  show ?case
  proof (cases k)
    case 0
    have "attrs (init_loop (set_network self m (int i)) (Suc i) ms) (worker_name (int i))
            = attrs (set_network self m (int i)) (worker_name (int i))"
      by (rule init_loop_other) (simp add: worker_name_eq_iff)
    with 0 show ?thesis by (simp add: set_network_attrs)
  next
    case (Suc j)
    with Cons.prems have "j < length ms" by simp
    from Cons.IH [OF this, of "set_network self m (int i)" "Suc i"] Suc
    show ?thesis by simp
  qed
qed

lemma init_loop_fields:
  "self_delta_t (init_loop self i ms) = self_delta_t self"
  "device (init_loop self i ms) = device self"
  by (induction ms arbitrary: self i) (simp_all add: set_network_fields)

lemma MultiNetwork_init_worker:
  "k < length ms \<Longrightarrow> attrs (MultiNetwork_init ms dt dev) (worker_name (int k)) = Some (ms ! k)"
  using init_loop_worker [of k ms _ 0] by (simp add: MultiNetwork_init_def)

lemma MultiNetwork_init_other:
  "i < 0 \<or> int (length ms) \<le> i \<Longrightarrow> attrs (MultiNetwork_init ms dt dev) (worker_name i) = None"
proof -
  assume a: "i < 0 \<or> int (length ms) \<le> i"
  have "attrs (init_loop \<lparr>attrs = Map.empty, modules = Map.empty, self_delta_t = None,
                          device = None\<rparr> 0 ms) (worker_name i)
          = attrs \<lparr>attrs = Map.empty, modules = Map.empty, self_delta_t = None,
                          device = None\<rparr> (worker_name i)"
  proof (rule init_loop_other)
    fix k assume "k < length ms"
    with a show "worker_name i \<noteq> worker_name (int (0 + k))"
      by (auto simp add: worker_name_eq_iff)
  qed
  then show ?thesis by (simp add: MultiNetwork_init_def)
qed

lemma MultiNetwork_init_delta_t: "self_delta_t (MultiNetwork_init ms dt dev) = Some dt"
  by (simp add: MultiNetwork_init_def)

lemma collect_Inl: "Inl e \<in> set rs \<Longrightarrow> \<exists>e'. collect rs = Inl e'"
  by (induction rs) (auto split: sum.splits)

lemma collect_length: "collect rs = Inr blocks \<Longrightarrow> length blocks = length rs"
  by (induction rs arbitrary: blocks) (auto split: sum.splits)

lemma eval_interval_worker:
  "attrs mn (worker_name i) = Some net \<Longrightarrow> eval_interval ne mn i xs = ne net xs"
  by (simp add: eval_interval_def)

lemma eval_interval_missing:
  "attrs mn (worker_name i) = None \<Longrightarrow> eval_interval ne mn i xs = Inl AttributeError"
  by (simp add: eval_interval_def)

lemma probe_workers:
  "k < n_intervals \<Longrightarrow> attrs probe_multi_net (worker_name (int k)) = Some k"
  using MultiNetwork_init_worker [of k "[0..<n_intervals]" delta_t "''cpu''"]
  by (simp add: probe_multi_net_def)

lemma probe_missing:
  "i < 0 \<or> int n_intervals \<le> i \<Longrightarrow> attrs probe_multi_net (worker_name i) = None"
  using MultiNetwork_init_other [of i "[0..<n_intervals]" delta_t "''cpu''"]
  by (simp add: probe_multi_net_def)

lemma probe_delta_t: "self_delta_t probe_multi_net = Some delta_t"
  by (simp add: probe_multi_net_def MultiNetwork_init_delta_t)

text \<open>
  Claim C8. \<open>set_network\<close> writes the attribute and the registered module named
  \<open>worker_index\<close> and nothing else: every other name, in particular \<open>worker_j\<close> for
  \<open>j \<noteq> index\<close>, keeps its attribute and its module; afterwards the attribute and the
  module \<open>worker_index\<close> are both the given network; \<open>delta_t\<close> and \<open>device\<close> are
  unchanged.
\<close>

theorem set_network_frame:
  "(\<forall>j. j \<noteq> index \<longrightarrow>
        attrs (set_network self net index) (worker_name j) = attrs self (worker_name j)
      \<and> modules (set_network self net index) (worker_name j) = modules self (worker_name j))
   \<and> (\<forall>name. name \<noteq> worker_name index \<longrightarrow>
        attrs (set_network self net index) name = attrs self name
      \<and> modules (set_network self net index) name = modules self name)
   \<and> attrs (set_network self net index) (worker_name index) = Some net
   \<and> modules (set_network self net index) (worker_name index) = Some net
   \<and> self_delta_t (set_network self net index) = self_delta_t self
   \<and> device (set_network self net index) = device self"
  by (simp add: set_network_attrs set_network_modules set_network_fields worker_name_eq_iff)

theorem set_network_frame_witness:
  "attrs (set_network probe_multi_net 99 5) (worker_name 6) = Some 6
   \<and> attrs (set_network probe_multi_net 99 5) (worker_name 5) = Some 99
   \<and> modules (set_network probe_multi_net 99 5) (worker_name 5) = Some 99
   \<and> self_delta_t (set_network probe_multi_net 99 5) = Some delta_t"
proof -
  have "attrs probe_multi_net (worker_name 6) = Some 6"
    using probe_workers [of 6] by (simp add: n_intervals_def)
  moreover have "(6::int) \<noteq> 5" by simp
  ultimately show ?thesis
    using set_network_frame [of 5 probe_multi_net 99] probe_delta_t by metis
qed

section \<open>Routing of input times\<close>

lemma eps13_bounds: "1 / 2 ^ 46 < eps13" "eps13 < 1 / 2 ^ 43" "0 < eps13"
  by (simp_all add: eps13_value)

lemma fdiv_delta_t: "is_double t \<Longrightarrow> fdiv t delta_t = t"
  by (simp add: fdiv_def delta_t_one is_double_def)

lemma eval_index_pos:
  assumes "is_double t" and "0 < t"
  shows "eval_index t = \<lfloor>round_double (t - eps13)\<rfloor>"
  using assms
  by (simp add: eval_index_def fdiv_delta_t py_int_of_int fsub_def del: of_int_floor_cancel)

lemma eval_index_nonpos:
  assumes "is_double t" and "t \<le> 0"
  shows "eval_index t = \<lceil>t\<rceil>"
  using assms by (auto simp add: eval_index_def fdiv_delta_t py_int_def)

lemma eval_index_zero: "eval_index 0 = 0"
  by (simp add: eval_index_def fdiv_def round_double_zero py_int_def)

lemma is_double_dyadic:
  assumes "x = real_of_int K * 2 powi j" and "\<bar>x\<bar> < 2 powi (j + 53)" and "- 1074 \<le> j"
  shows "is_double x"
  unfolding is_double_def using assms by (rule round_double_exact)

lemma is_double_int:
  assumes "\<bar>real_of_int i\<bar> < 2 ^ 53"
  shows "is_double (real_of_int i)"
  unfolding is_double_def using assms by (rule round_double_int)

lemma floor_round_sandwich:
  assumes "\<bar>x\<bar> < 128"
  shows "\<lfloor>x\<rfloor> \<le> \<lfloor>round_double x\<rfloor>" and "\<lfloor>round_double x\<rfloor> \<le> \<lfloor>x + 1 / 2 ^ 47\<rfloor>"
proof -
  have "real_of_int \<lfloor>x\<rfloor> * 2 powi 0 \<le> round_double x"
    using assms by (intro round_double_ge_grid) simp_all
  then show "\<lfloor>x\<rfloor> \<le> \<lfloor>round_double x\<rfloor>" by (simp add: le_floor_iff)
  have "\<bar>round_double x - x\<bar> \<le> 2 powi (6 - 53)"
    using assms by (intro round_double_err) simp_all
  moreover have "(2::real) powi (6 - 53) = 1 / 2 ^ 47" by (simp add: power_int_minus_divide)
  ultimately have "\<bar>round_double x - x\<bar> \<le> 1 / 2 ^ 47" by (simp only:)
  then have "round_double x \<le> x + 1 / 2 ^ 47" by linarith
  then show "\<lfloor>round_double x\<rfloor> \<le> \<lfloor>x + 1 / 2 ^ 47\<rfloor>" by (rule floor_mono)
qed

lemma round_double_ge_int:
  assumes "\<bar>x\<bar> < 2 ^ 53" and "real_of_int K \<le> x"
  shows "real_of_int K \<le> round_double x"
  using round_double_ge_grid [of x 0 K] assms by simp

lemma round_double_le_int:
  assumes "\<bar>x\<bar> < 2 ^ 53" and "x \<le> real_of_int K"
  shows "round_double x \<le> real_of_int K"
  using round_double_le_grid [of x 0 K] assms by simp

lemma round_double_below_int:
  assumes "\<bar>x\<bar> < 128" and "x \<le> real_of_int K - 1 / 2 ^ 46"
  shows "round_double x < real_of_int K"
proof -
  have "real_of_int K - 1 / 2 ^ 46 = real_of_int (K * 2 ^ 46 - 1) * 2 powi (- 46)"
    by (simp add: power_int_minus_divide field_simps)
  with assms(2) have "x \<le> real_of_int (K * 2 ^ 46 - 1) * 2 powi (- 46)" by simp
  then have "round_double x \<le> real_of_int (K * 2 ^ 46 - 1) * 2 powi (- 46)"
    using assms(1) by (intro round_double_le_grid) simp_all
  also have "\<dots> = real_of_int K - 1 / 2 ^ 46"
    by (simp add: power_int_minus_divide field_simps)
  finally show ?thesis by simp
qed


lemma index_in_domain:
  assumes "is_double t" and "eps13 \<le> t" and "t \<le> 72"
  shows "eval_index t = \<lfloor>round_double (t - eps13)\<rfloor>"
    and "\<lfloor>t - eps13\<rfloor> \<le> eval_index t"
    and "eval_index t \<le> \<lfloor>t - eps13 + 1 / 2 ^ 47\<rfloor>"
    and "0 \<le> eval_index t"
    and "eval_index t < 72"
    and "real_of_int (eval_index t) \<le> t"
    and "t < real_of_int (eval_index t) + 1 + eps13"
proof -
  have pos: "0 < t" using assms(2) eps13_bounds(3) by linarith
  show e: "eval_index t = \<lfloor>round_double (t - eps13)\<rfloor>"
    using assms(1) pos by (rule eval_index_pos)
  have x: "0 \<le> t - eps13" "t - eps13 < 72" using assms(2,3) eps13_bounds(3) by linarith+
  then have ax: "\<bar>t - eps13\<bar> < 128" by simp
  then have big: "\<bar>t - eps13\<bar> < 2 ^ 53" by simp
  show lo: "\<lfloor>t - eps13\<rfloor> \<le> eval_index t"
    unfolding e using ax by (rule floor_round_sandwich(1))
  show hi: "eval_index t \<le> \<lfloor>t - eps13 + 1 / 2 ^ 47\<rfloor>"
    unfolding e using ax by (rule floor_round_sandwich(2))
  have "0 \<le> \<lfloor>t - eps13\<rfloor>" using x(1) by simp
  with lo show "0 \<le> eval_index t" by linarith
  have "t - eps13 \<le> real_of_int 72 - 1 / 2 ^ 46" using assms(3) eps13_bounds(1) by simp
  with ax have "round_double (t - eps13) < real_of_int 72" by (rule round_double_below_int)
  then show "eval_index t < 72" unfolding e by (simp add: floor_less_iff)
  have "real_of_int \<lfloor>t - eps13 + 1 / 2 ^ 47\<rfloor> \<le> t - eps13 + 1 / 2 ^ 47" by simp
  with hi have "real_of_int (eval_index t) \<le> t - eps13 + 1 / 2 ^ 47" by linarith
  moreover have "(1::real) / 2 ^ 47 < 1 / 2 ^ 46" by simp
  ultimately show "real_of_int (eval_index t) \<le> t" using eps13_bounds(1) by linarith
  show "t < real_of_int (eval_index t) + 1 + eps13"
  proof (rule ccontr)
    assume "\<not> t < real_of_int (eval_index t) + 1 + eps13"
    then have "real_of_int (eval_index t + 1) \<le> t - eps13" by simp
    with big have "real_of_int (eval_index t + 1) \<le> round_double (t - eps13)"
      by (rule round_double_ge_int)
    then have "eval_index t + 1 \<le> \<lfloor>round_double (t - eps13)\<rfloor>" by (simp add: le_floor_iff)
    with e show False by simp
  qed
qed

lemma shift_exact:
  assumes "is_double t" and "\<bar>t\<bar> < 2 ^ 53" and "\<bar>t - real_of_int i\<bar> \<le> \<bar>t\<bar>"
    and "\<bar>real_of_int i\<bar> < 2 ^ 53"
  shows "fsub t (fmul delta_t (real_of_int i)) = t - real_of_int i"
proof -
  have "fmul delta_t (real_of_int i) = real_of_int i"
    using assms(4) by (simp add: fmul_def delta_t_one round_double_int)
  then show ?thesis using assms(1-3) by (simp add: fsub_def round_double_sub_int)
qed

lemma zip_route:
  "map f2 (zip (map g ts) (map f1 (zip ts (map g ts)))) = map (\<lambda>t. f2 (g t, f1 (t, g t))) ts"
  by (induction ts) simp_all

lemma MultiNetwork_eval_unfold:
  assumes "self_delta_t mn = Some dt"
  shows "MultiNetwork_eval ne mn ts =
           (case collect (map (\<lambda>t. eval_interval ne mn (eval_index t)
                                      [fsub t (fmul dt (real_of_int (eval_index t)))]) ts) of
              Inl e \<Rightarrow> Inl e
            | Inr blocks \<Rightarrow> vstack blocks)"
  using assms by (simp add: MultiNetwork_eval_def Let_def zip_route)

lemma eval_index_boundary:
  assumes "1 \<le> k" and "k \<le> 72"
  shows "eval_index (real k) = int k - 1"
proof -
  have d: "is_double (real k)"
    using is_double_int [of "int k"] assms(2) by simp
  have pos: "0 < real k" using assms(1) by simp
  have ax: "\<bar>real k - eps13\<bar> < 128" using assms eps13_bounds by (simp add: abs_if)
  have "real k - eps13 \<le> real_of_int (int k) - 1 / 2 ^ 46" using eps13_bounds(1) by simp
  with ax have up: "round_double (real k - eps13) < real_of_int (int k)"
    by (rule round_double_below_int)
  have "eps13 < 1" using eps13_bounds(2) by (simp add: field_simps)
  then have "real_of_int (int k - 1) \<le> real k - eps13" by simp
  moreover have "\<bar>real k - eps13\<bar> < 2 ^ 53" using ax by simp
  ultimately have lo: "real_of_int (int k - 1) \<le> round_double (real k - eps13)"
    by (intro round_double_ge_int)
  have "\<lfloor>round_double (real k - eps13)\<rfloor> = int k - 1"
    by (rule floor_unique) (use lo up in simp_all)
  then show ?thesis using eval_index_pos [OF d pos] by simp
qed

lemma eval_index_past_boundary:
  assumes "is_double t" and "1 \<le> k" and "k \<le> 72"
    and "real k \<le> t" and "t < real k + eps13 - 1 / 2 ^ 47"
  shows "eval_index t = int k - 1"
proof -
  have pos: "0 < t" using assms(2,4) by simp
  have e1: "eps13 < 1" using eps13_bounds(2) by (simp add: field_simps)
  have ax: "\<bar>t - eps13\<bar> < 128" using assms(3,4,5) e1 eps13_bounds by (simp add: abs_if)
  have "real_of_int (int k - 1) \<le> t - eps13" using assms(4) e1 by simp
  moreover have "\<bar>t - eps13\<bar> < 2 ^ 53" using ax by simp
  ultimately have lo: "real_of_int (int k - 1) \<le> round_double (t - eps13)"
    by (intro round_double_ge_int)
  have "\<bar>round_double (t - eps13) - (t - eps13)\<bar> \<le> 2 powi (6 - 53)"
    using ax by (intro round_double_err) simp_all
  moreover have "(2::real) powi (6 - 53) = 1 / 2 ^ 47" by (simp add: power_int_minus_divide)
  ultimately have "\<bar>round_double (t - eps13) - (t - eps13)\<bar> \<le> 1 / 2 ^ 47" by (simp only:)
  with assms(5) have up: "round_double (t - eps13) < real k" by linarith
  have "\<lfloor>round_double (t - eps13)\<rfloor> = int k - 1"
    by (rule floor_unique) (use lo up in simp_all)
  then show ?thesis using eval_index_pos [OF assms(1) pos] by simp
qed

lemma eval_index_interior:
  assumes "is_double t" and "k < 72" and "real k + eps13 \<le> t" and "t < real (Suc k)"
  shows "eval_index t = int k"
proof -
  have pos: "0 < t" using assms(3) eps13_bounds(3) by (simp add: add_pos_nonneg)
  have ax: "\<bar>t - eps13\<bar> < 128" using assms(2,3,4) eps13_bounds by (simp add: abs_if)
  have "real_of_int (int k) \<le> t - eps13" using assms(3) by simp
  moreover have "\<bar>t - eps13\<bar> < 2 ^ 53" using ax by simp
  ultimately have lo: "real_of_int (int k) \<le> round_double (t - eps13)"
    by (intro round_double_ge_int)
  have "t - eps13 \<le> real_of_int (int k + 1) - 1 / 2 ^ 46"
    using assms(4) eps13_bounds(1) by simp
  with ax have up: "round_double (t - eps13) < real_of_int (int k + 1)"
    by (rule round_double_below_int)
  have "\<lfloor>round_double (t - eps13)\<rfloor> = int k"
    by (rule floor_unique) (use lo up in simp_all)
  then show ?thesis using eval_index_pos [OF assms(1) pos] by simp
qed


lemma round_double_near_int:
  assumes "2 powi e \<le> x" and "x < 2 powi (e + 1)" and "- 1022 \<le> e" and "e \<le> 52"
    and "real_of_int K - 2 powi (e - 53) < x" and "x \<le> real_of_int K"
  shows "round_double x = real_of_int K"
proof -
  have xpos: "0 < x" using assms(1) two_powi_pos [of e] by linarith
  then have ex: "expo x = e" using assms(1,2,3) by (intro expo_eq) simp_all
  have u: "ulp x = 2 powi (e - 52)" by (simp add: ulp_def ex)
  let ?K = "K * 2 ^ nat (0 - (e - 52))"
  have "e - 52 \<le> 0" using assms(4) by simp
  from powi_split [OF this] have one: "(1::real) = real_of_int (2 ^ nat (0 - (e - 52))) * ulp x"
    by (simp add: u)
  have "real_of_int K = real_of_int K * 1" by simp
  also have "\<dots> = real_of_int ?K * ulp x" by (subst one) simp
  finally have k: "real_of_int K = real_of_int ?K * ulp x" .
  have half: "(2::real) powi (e - 53) = ulp x / 2"
  proof -
    have "(2::real) powi (e - 52) = 2 powi ((e - 53) + 1)" by simp
    also have "\<dots> = 2 powi (e - 53) * 2" by (subst power_int_add) simp_all
    finally show ?thesis by (simp add: u)
  qed
  have "real_of_int ?K * ulp x - ulp x / 2 < x" using assms(5) by (simp only: k [symmetric] half)
  then have "(real_of_int ?K - 1 / 2) * ulp x < x" by (simp add: algebra_simps)
  then have "real_of_int ?K - 1 / 2 < x / ulp x"
    using ulp_pos [of x] by (simp add: pos_less_divide_eq)
  then have lo: "?K \<le> round_half_even (x / ulp x)" by (rule rhe_near_ge)
  have "x \<le> real_of_int ?K * ulp x" using assms(6) by (simp only: k [symmetric])
  then have "x / ulp x \<le> real_of_int ?K" using ulp_pos [of x] by (simp add: pos_divide_le_eq)
  then have "round_half_even (x / ulp x) \<le> ?K" by (rule rhe_le)
  with lo have "round_half_even (x / ulp x) = ?K" by simp
  then have "round_double x = real_of_int ?K * ulp x"
    using xpos by (simp add: round_double_def)
  then show ?thesis by (simp only: k [symmetric])
qed

lemma is_double_eps13: "is_double eps13"
  by (rule is_double_dyadic [of _ 3961408125713217 "- 95"])
     (simp_all add: eps13_value power_int_minus_divide)

lemma eval_index_tiny:
  assumes "is_double t" and "0 < t" and "t < eps13"
  shows "eval_index t = - 1"
proof -
  from is_double_min_grid [OF assms(1)] obtain K1 where
    k1: "t = real_of_int K1 * 2 powi (- 1074)" by blast
  from is_double_min_grid [OF is_double_eps13] obtain K2 where
    k2: "eps13 = real_of_int K2 * 2 powi (- 1074)" by blast
  have m: "0 < (2::real) powi (- 1074)" by (rule two_powi_pos)
  have "real_of_int K1 * 2 powi (- 1074) < real_of_int K2 * 2 powi (- 1074)"
    using assms(3) by (simp only: k1 [symmetric] k2 [symmetric])
  then have "real_of_int K1 < real_of_int K2" using m by (simp only: mult_less_cancel_right_pos)
  then have "K1 - K2 \<le> - 1" by simp
  then have "real_of_int (K1 - K2) \<le> - 1" by (simp only: of_int_le_iff of_int_minus of_int_1)
  then have "real_of_int (K1 - K2) * 2 powi (- 1074) \<le> (- 1) * 2 powi (- 1074)"
    using m by (simp only: mult_le_cancel_right_pos)
  moreover have "t - eps13 = real_of_int (K1 - K2) * 2 powi (- 1074)"
    by (subst k1, subst k2) (simp add: algebra_simps)
  ultimately have "t - eps13 \<le> - (2 powi (- 1074))" by simp
  then have up: "round_double (t - eps13) < 0" by (rule round_double_negative)
  have e1: "eps13 < 1" using eps13_bounds(2) by (simp add: field_simps)
  have "\<bar>t - eps13\<bar> < 2 ^ 53" using assms(2,3) e1 by (simp add: abs_if)
  moreover have "real_of_int (- 1) \<le> t - eps13" using assms(2) e1 by simp
  ultimately have lo: "real_of_int (- 1) \<le> round_double (t - eps13)"
    by (rule round_double_ge_int)
  have "\<lfloor>round_double (t - eps13)\<rfloor> = - 1"
    by (rule floor_unique) (use lo up in simp_all)
  then show ?thesis using eval_index_pos [OF assms(1,2)] by simp
qed

lemma eval_index_above_64: "eval_index (64 + 7 / 2 ^ 46) = 64"
proof -
  have d: "is_double (64 + 7 / 2 ^ 46)"
    by (rule is_double_dyadic [of _ "64 * 2 ^ 46 + 7" "- 46"])
       (simp_all add: power_int_minus_divide)
  have "round_double (64 + 7 / 2 ^ 46 - eps13) = real_of_int 64"
    by (rule round_double_near_int [of 5])
       (simp_all add: eps13_value power_int_minus_divide)
  then show ?thesis using eval_index_pos [OF d] by simp
qed

lemma eval_index_above_72: "eval_index (72 + 7 / 2 ^ 46) = 72"
proof -
  have d: "is_double (72 + 7 / 2 ^ 46)"
    by (rule is_double_dyadic [of _ "72 * 2 ^ 46 + 7" "- 46"])
       (simp_all add: power_int_minus_divide)
  have "round_double (72 + 7 / 2 ^ 46 - eps13) = real_of_int 72"
    by (rule round_double_near_int [of 6])
       (simp_all add: eps13_value power_int_minus_divide)
  then show ?thesis using eval_index_pos [OF d] by simp
qed


lemma route_in_domain:
  assumes "is_double t" and "t = 0 \<or> (eps13 * delta_t \<le> t \<and> t \<le> t_max)"
  shows "eval_index t = (if t = 0 then 0 else \<lfloor>round_double (t / delta_t - eps13)\<rfloor>)
       \<and> (t \<noteq> 0 \<longrightarrow> \<lfloor>t / delta_t - eps13\<rfloor> \<le> eval_index t
                     \<and> eval_index t \<le> \<lfloor>t / delta_t - eps13 + 1 / 2 ^ 47\<rfloor>)
       \<and> 0 \<le> eval_index t \<and> eval_index t < int n_intervals
       \<and> real_of_int (eval_index t) * delta_t \<le> t
       \<and> t < (real_of_int (eval_index t) + 1) * delta_t + eps13 * delta_t
       \<and> fsub t (fmul delta_t (real_of_int (eval_index t)))
            = t - delta_t * real_of_int (eval_index t)
       \<and> 0 \<le> t - delta_t * real_of_int (eval_index t)
       \<and> t - delta_t * real_of_int (eval_index t) < delta_t + eps13 * delta_t"
proof (cases "t = 0")
  case True
  have "fsub 0 (fmul delta_t 0) = 0" by (simp add: fsub_def fmul_def round_double_zero)
  with True eps13_bounds(3) show ?thesis
    by (simp add: eval_index_zero n_intervals_def delta_t_one)
next
  case False
  with assms(2) have r: "eps13 \<le> t" "t \<le> 72" by (simp_all add: delta_t_one t_max_def)
  note f = index_in_domain [OF assms(1) r]
  have "\<bar>t\<bar> < 2 ^ 53" using r eps13_bounds(3) by simp
  moreover have "\<bar>t - real_of_int (eval_index t)\<bar> \<le> \<bar>t\<bar>" using f(4,6) by simp
  moreover have "\<bar>real_of_int (eval_index t)\<bar> < 2 ^ 53" using f(4,5) by simp
  ultimately have sh: "fsub t (fmul delta_t (real_of_int (eval_index t)))
      = t - real_of_int (eval_index t)"
    using assms(1) by (intro shift_exact)
  from False f sh show ?thesis by (simp add: n_intervals_def delta_t_one)
qed

text \<open>
  Claim C1 (as amended). Let \<open>t\<close> be a float input time that is \<open>0\<close> or lies in
  \<open>[eps13 * delta_t, t_max]\<close>, where \<open>eps13\<close> is the float \<^verbatim>\<open>1e-13\<close>. Evaluation routes
  \<open>t\<close> to the sub-network \<open>worker_i\<close> with \<open>i = \<lfloor>fl (t / delta_t - eps13)\<rfloor>\<close>, the
  subtraction being rounded to a float (\<open>i = 0\<close> for \<open>t = 0\<close>). This index satisfies
  \<open>\<lfloor>t / delta_t - eps13\<rfloor> \<le> i \<le> \<lfloor>t / delta_t - eps13 + 2^(- 47)\<rfloor>\<close>,
  \<open>0 \<le> i < n_intervals\<close> and \<open>i * delta_t \<le> t < (i + 1) * delta_t + eps13 * delta_t\<close>.
  Time \<open>0\<close> goes to \<open>worker_0\<close>; for \<open>1 \<le> k \<le> n_intervals\<close> the boundary
  \<open>k * delta_t\<close> and every time from there up to, but excluding,
  \<open>k * delta_t + eps13 * delta_t - 2^(- 47)\<close> go to \<open>worker_(k - 1)\<close>; for
  \<open>k < n_intervals\<close> every time in \<open>[k * delta_t + eps13 * delta_t, (k + 1) * delta_t)\<close>
  goes to \<open>worker_k\<close>. The sub-network is evaluated at the shifted time
  \<open>t - i * delta_t\<close>, which the float operations compute without error and which lies in
  \<open>[0, delta_t + eps13 * delta_t)\<close>. For a non-empty input the blocks of output rows are
  stacked in the order of the input times.
\<close>

theorem MultiNetwork_eval_routing:
  assumes "self_delta_t mn = Some delta_t"
    and "\<forall>i<n_intervals. attrs mn (worker_name (int i)) = Some (w i)"
    and "\<forall>t\<in>set ts. is_double t \<and> (t = 0 \<or> (eps13 * delta_t \<le> t \<and> t \<le> t_max))"
    and "ts \<noteq> []"
  shows "MultiNetwork_eval ne mn ts =
           (case collect (map (\<lambda>t. ne (w (nat (eval_index t)))
                                      [t - delta_t * real_of_int (eval_index t)]) ts) of
              Inl e \<Rightarrow> Inl e
            | Inr blocks \<Rightarrow> Inr (concat blocks))
         \<and> (\<forall>t\<in>set ts.
               eval_index t = (if t = 0 then 0 else \<lfloor>round_double (t / delta_t - eps13)\<rfloor>)
             \<and> (t \<noteq> 0 \<longrightarrow> \<lfloor>t / delta_t - eps13\<rfloor> \<le> eval_index t
                           \<and> eval_index t \<le> \<lfloor>t / delta_t - eps13 + 1 / 2 ^ 47\<rfloor>)
             \<and> 0 \<le> eval_index t \<and> eval_index t < int n_intervals
             \<and> real_of_int (eval_index t) * delta_t \<le> t
             \<and> t < (real_of_int (eval_index t) + 1) * delta_t + eps13 * delta_t
             \<and> fsub t (fmul delta_t (real_of_int (eval_index t)))
                  = t - delta_t * real_of_int (eval_index t)
             \<and> 0 \<le> t - delta_t * real_of_int (eval_index t)
             \<and> t - delta_t * real_of_int (eval_index t) < delta_t + eps13 * delta_t)
         \<and> eval_index 0 = 0
         \<and> (\<forall>k. 1 \<le> k \<and> k \<le> n_intervals \<longrightarrow> eval_index (real k * delta_t) = int k - 1)
         \<and> (\<forall>k t. is_double t \<and> 1 \<le> k \<and> k \<le> n_intervals \<and> real k * delta_t \<le> t
                 \<and> t < real k * delta_t + eps13 * delta_t - 1 / 2 ^ 47
               \<longrightarrow> eval_index t = int k - 1)
         \<and> (\<forall>k t. is_double t \<and> k < n_intervals \<and> real k * delta_t + eps13 * delta_t \<le> t
                 \<and> t < real (Suc k) * delta_t
               \<longrightarrow> eval_index t = int k)"
proof -
  have rng: "\<forall>t\<in>set ts.
               eval_index t = (if t = 0 then 0 else \<lfloor>round_double (t / delta_t - eps13)\<rfloor>)
             \<and> (t \<noteq> 0 \<longrightarrow> \<lfloor>t / delta_t - eps13\<rfloor> \<le> eval_index t
                           \<and> eval_index t \<le> \<lfloor>t / delta_t - eps13 + 1 / 2 ^ 47\<rfloor>)
             \<and> 0 \<le> eval_index t \<and> eval_index t < int n_intervals
             \<and> real_of_int (eval_index t) * delta_t \<le> t
             \<and> t < (real_of_int (eval_index t) + 1) * delta_t + eps13 * delta_t
             \<and> fsub t (fmul delta_t (real_of_int (eval_index t)))
                  = t - delta_t * real_of_int (eval_index t)
             \<and> 0 \<le> t - delta_t * real_of_int (eval_index t)
             \<and> t - delta_t * real_of_int (eval_index t) < delta_t + eps13 * delta_t"
    using assms(3) route_in_domain by blast
  have "map (\<lambda>t. eval_interval ne mn (eval_index t)
                    [fsub t (fmul delta_t (real_of_int (eval_index t)))]) ts
          = map (\<lambda>t. ne (w (nat (eval_index t))) [t - delta_t * real_of_int (eval_index t)]) ts"
  proof (rule map_cong [OF refl])
    fix t assume "t \<in> set ts"
    with rng have i: "0 \<le> eval_index t" "eval_index t < int n_intervals"
      and sh: "fsub t (fmul delta_t (real_of_int (eval_index t)))
                  = t - delta_t * real_of_int (eval_index t)" by blast+
    then have "nat (eval_index t) < n_intervals" by simp
    with assms(2) have "attrs mn (worker_name (int (nat (eval_index t))))
                          = Some (w (nat (eval_index t)))" by blast
    with i have "attrs mn (worker_name (eval_index t)) = Some (w (nat (eval_index t)))" by simp
    then show "eval_interval ne mn (eval_index t)
                 [fsub t (fmul delta_t (real_of_int (eval_index t)))]
                 = ne (w (nat (eval_index t))) [t - delta_t * real_of_int (eval_index t)]"
      by (simp only: sh eval_interval_worker)
  qed
  then have "MultiNetwork_eval ne mn ts =
           (case collect (map (\<lambda>t. ne (w (nat (eval_index t)))
                                      [t - delta_t * real_of_int (eval_index t)]) ts) of
              Inl e \<Rightarrow> Inl e
            | Inr blocks \<Rightarrow> vstack blocks)"
    by (simp only: MultiNetwork_eval_unfold [OF assms(1)])
  also have "\<dots> =
           (case collect (map (\<lambda>t. ne (w (nat (eval_index t)))
                                      [t - delta_t * real_of_int (eval_index t)]) ts) of
              Inl e \<Rightarrow> Inl e
            | Inr blocks \<Rightarrow> Inr (concat blocks))"
  proof (cases "collect (map (\<lambda>t. ne (w (nat (eval_index t)))
                                      [t - delta_t * real_of_int (eval_index t)]) ts)")
    case (Inl e)
    then show ?thesis by simp
  next
    case (Inr blocks)
    from collect_length [OF this] assms(4) have "blocks \<noteq> []" by auto
    with Inr show ?thesis by (simp add: vstack_def)
  qed
  finally have a: "MultiNetwork_eval ne mn ts =
           (case collect (map (\<lambda>t. ne (w (nat (eval_index t)))
                                      [t - delta_t * real_of_int (eval_index t)]) ts) of
              Inl e \<Rightarrow> Inl e
            | Inr blocks \<Rightarrow> Inr (concat blocks))" .
  have b: "\<forall>k. 1 \<le> k \<and> k \<le> n_intervals \<longrightarrow> eval_index (real k * delta_t) = int k - 1"
    by (simp add: eval_index_boundary delta_t_one n_intervals_def)
  have c: "\<forall>k t. is_double t \<and> 1 \<le> k \<and> k \<le> n_intervals \<and> real k * delta_t \<le> t
                 \<and> t < real k * delta_t + eps13 * delta_t - 1 / 2 ^ 47
               \<longrightarrow> eval_index t = int k - 1"
    using eval_index_past_boundary by (simp add: delta_t_one n_intervals_def)
  have d: "\<forall>k t. is_double t \<and> k < n_intervals \<and> real k * delta_t + eps13 * delta_t \<le> t
                 \<and> t < real (Suc k) * delta_t
               \<longrightarrow> eval_index t = int k"
    using eval_index_interior by (simp add: delta_t_one n_intervals_def)
  show ?thesis by (intro conjI) (fact a rng eval_index_zero b c d)+
qed


lemma is_double_zero: "is_double 0"
  by (simp add: is_double_def round_double_zero)

lemma is_double_half: "is_double (1 / 2)"
  by (rule is_double_dyadic [of _ 1 "- 1"]) (simp_all add: power_int_minus_divide)

lemma is_double_above_64: "is_double (64 + 7 / 2 ^ 46)"
  by (rule is_double_dyadic [of _ "64 * 2 ^ 46 + 7" "- 46"])
     (simp_all add: power_int_minus_divide)

lemma is_double_72: "is_double 72"
  using is_double_int [of 72] by simp

lemma eval_index_half: "eval_index (1 / 2) = 0"
  using eval_index_interior [OF is_double_half, of 0] eps13_bounds(2)
  by (simp add: field_simps)

lemma eval_index_72: "eval_index 72 = 71"
  using eval_index_boundary [of 72] by simp

theorem MultiNetwork_eval_routing_witness:
  "MultiNetwork_eval probe_eval probe_multi_net [0, 1 / 2, 64 + 7 / 2 ^ 46, 72]
     = Inr [[0, 0], [0, 1 / 2], [64, 7 / 2 ^ 46], [71, 1]]"
proof -
  let ?ts = "[0, 1 / 2, 64 + 7 / 2 ^ 46, 72::real]"
  have h2: "\<forall>i<n_intervals. attrs probe_multi_net (worker_name (int i)) = Some (id i)"
    by (simp add: probe_workers)
  have dom: "eps13 \<le> 1 / 2" "eps13 \<le> 64 + 7 / 2 ^ 46" "eps13 \<le> 72"
    by (simp_all add: eps13_value)
  have h3: "\<forall>t\<in>set ?ts. is_double t \<and> (t = 0 \<or> (eps13 * delta_t \<le> t \<and> t \<le> t_max))"
    using is_double_zero is_double_half is_double_above_64 is_double_72 dom
    by (simp add: delta_t_one t_max_def)
  have h4: "?ts \<noteq> []" by simp
  have "MultiNetwork_eval probe_eval probe_multi_net ?ts =
           (case collect (map (\<lambda>t. probe_eval (id (nat (eval_index t)))
                                      [t - delta_t * real_of_int (eval_index t)]) ?ts) of
              Inl e \<Rightarrow> Inl e
            | Inr blocks \<Rightarrow> Inr (concat blocks))"
    by (rule MultiNetwork_eval_routing [OF probe_delta_t h2 h3 h4, THEN conjunct1])
  then show ?thesis
    by (simp add: eval_index_zero eval_index_half [simplified] eval_index_above_64 [simplified]
        eval_index_72 probe_eval_def delta_t_one)
qed

lemma is_double_tiny: "is_double (1 / 2 ^ 47)"
  by (rule is_double_dyadic [of _ 1 "- 47"]) (simp_all add: power_int_minus_divide)

lemma is_double_past_5: "is_double (5 + 1 / 2 ^ 47)"
  by (rule is_double_dyadic [of _ "5 * 2 ^ 47 + 1" "- 47"])
     (simp_all add: power_int_minus_divide)

lemma eval_index_tiny_47: "eval_index (1 / 2 ^ 47) = - 1"
  by (rule eval_index_tiny [OF is_double_tiny]) (simp_all add: eps13_value)

lemma eval_index_past_5: "eval_index (5 + 1 / 2 ^ 47) = 4"
  using eval_index_past_boundary [OF is_double_past_5, of 5] by (simp add: eps13_value)

lemma MultiNetwork_eval_single:
  assumes "self_delta_t mn = Some delta_t" and "attrs mn (worker_name (eval_index t)) = Some net"
    and "fsub t (fmul delta_t (real_of_int (eval_index t))) = local"
  shows "MultiNetwork_eval ne mn [t] = (case ne net [local] of Inl e \<Rightarrow> Inl e | Inr rows \<Rightarrow> Inr rows)"
  using assms(2,3)
  by (simp add: MultiNetwork_eval_unfold [OF assms(1)] eval_interval_def vstack_def
      split: sum.splits)

lemma MultiNetwork_eval_single_missing:
  assumes "self_delta_t mn = Some dt" and "attrs mn (worker_name (eval_index t)) = None"
  shows "MultiNetwork_eval ne mn [t] = Inl AttributeError"
  using assms by (simp add: MultiNetwork_eval_unfold eval_interval_missing)

theorem MultiNetwork_eval_routing_counterexample:
  "is_double (1 / 2 ^ 47) \<and> (0::real) \<le> 1 / 2 ^ 47 \<and> (1::real) / 2 ^ 47 \<le> t_max
   \<and> MultiNetwork_eval probe_eval probe_multi_net [1 / 2 ^ 47] = Inl AttributeError
   \<and> is_double (5 + 1 / 2 ^ 47) \<and> (0::real) \<le> 5 + 1 / 2 ^ 47 \<and> (5::real) + 1 / 2 ^ 47 \<le> t_max
   \<and> MultiNetwork_eval probe_eval probe_multi_net [5 + 1 / 2 ^ 47]
       = Inr [[4, 1 + 1 / 2 ^ 47]]
   \<and> \<not> (5::real) + 1 / 2 ^ 47 \<le> (4 + 1) * delta_t
   \<and> \<not> (1::real) + 1 / 2 ^ 47 \<le> delta_t"
proof -
  have a: "attrs probe_multi_net (worker_name (eval_index (1 / 2 ^ 47))) = None"
    unfolding eval_index_tiny_47 by (rule probe_missing) simp
  have e1: "MultiNetwork_eval probe_eval probe_multi_net [1 / 2 ^ 47] = Inl AttributeError"
    using probe_delta_t a by (rule MultiNetwork_eval_single_missing)
  have b: "attrs probe_multi_net (worker_name (eval_index (5 + 1 / 2 ^ 47))) = Some 4"
    unfolding eval_index_past_5 using probe_workers [of 4] by (simp add: n_intervals_def)
  have "fsub (5 + 1 / 2 ^ 47) (fmul delta_t (real_of_int 4)) = 5 + 1 / 2 ^ 47 - real_of_int 4"
    using is_double_past_5 by (rule shift_exact) simp_all
  then have sh: "fsub (5 + 1 / 2 ^ 47) (fmul delta_t (real_of_int (eval_index (5 + 1 / 2 ^ 47))))
      = 1 + 1 / 2 ^ 47" by (simp add: eval_index_past_5 [simplified])
  have e2: "MultiNetwork_eval probe_eval probe_multi_net [5 + 1 / 2 ^ 47]
       = Inr [[4, 1 + 1 / 2 ^ 47]]"
    by (simp only: MultiNetwork_eval_single [OF probe_delta_t b sh]) (simp add: probe_eval_def)
  have r: "(0::real) \<le> 1 / 2 ^ 47 \<and> (1::real) / 2 ^ 47 \<le> t_max
     \<and> (0::real) \<le> 5 + 1 / 2 ^ 47 \<and> (5::real) + 1 / 2 ^ 47 \<le> t_max
     \<and> \<not> (5::real) + 1 / 2 ^ 47 \<le> (4 + 1) * delta_t
     \<and> \<not> (1::real) + 1 / 2 ^ 47 \<le> delta_t"
    by (simp add: t_max_def delta_t_one)
  from is_double_tiny is_double_past_5 e1 e2 r show ?thesis by blast
qed


lemma eval_index_beyond:
  assumes "is_double t" and "72 + eps13 \<le> t" and "t < 2 ^ 53"
  shows "72 \<le> eval_index t"
proof -
  have pos: "0 < t" using assms(2) eps13_bounds(3) by linarith
  have "\<bar>t - eps13\<bar> < 2 ^ 53" using assms(2,3) eps13_bounds(3) by (simp add: abs_if)
  moreover have "real_of_int 72 \<le> t - eps13" using assms(2) by simp
  ultimately have "real_of_int 72 \<le> round_double (t - eps13)" by (rule round_double_ge_int)
  then have "72 \<le> \<lfloor>round_double (t - eps13)\<rfloor>" by (simp add: le_floor_iff)
  then show ?thesis using eval_index_pos [OF assms(1) pos] by simp
qed

lemma eval_index_negative:
  assumes "is_double t"
  shows "eval_index t < 0 \<longleftrightarrow> t \<le> - 1 \<or> (0 < t \<and> t < eps13)"
proof (cases "0 < t")
  case True
  show ?thesis
  proof (cases "t < eps13")
    case t: True
    with True assms show ?thesis by (simp add: eval_index_tiny)
  next
    case False
    then have "0 \<le> t - eps13" by simp
    then have "0 \<le> round_double (t - eps13)" by (rule round_double_nonneg)
    then have "0 \<le> \<lfloor>round_double (t - eps13)\<rfloor>" by simp
    with True False show ?thesis using eval_index_pos [OF assms True] by simp
  qed
next
  case False
  have "\<lceil>t\<rceil> < 0 \<longleftrightarrow> t \<le> - 1" by (simp add: ceiling_less_iff)
  with False show ?thesis using eval_index_nonpos [OF assms] by simp
qed

lemma eval_index_large_only:
  assumes "is_double t" and "72 \<le> eval_index t"
  shows "72 < t"
proof (rule ccontr)
  assume "\<not> 72 < t"
  then have le: "t \<le> 72" by simp
  show False
  proof (cases "eps13 \<le> t")
    case True
    from index_in_domain(5) [OF assms(1) True le] assms(2) show False by simp
  next
    case False
    show False
    proof (cases "0 < t")
      case True
      with False assms(1) have "eval_index t = - 1" by (simp add: eval_index_tiny)
      with assms(2) show False by simp
    next
      case f: False
      then have "\<lceil>t\<rceil> \<le> 0" by (simp add: ceiling_le_iff)
      with f assms show False using eval_index_nonpos [of t] by simp
    qed
  qed
qed

lemma eval_index_just_below_zero:
  assumes "is_double t" and "- 1 < t" and "t \<le> 0"
  shows "eval_index t = 0"
proof -
  have "\<lceil>t\<rceil> = 0" by (rule ceiling_unique) (use assms in simp_all)
  with assms show ?thesis by (simp add: eval_index_nonpos)
qed

lemma MultiNetwork_eval_some_missing:
  assumes "self_delta_t mn = Some dt" and "t \<in> set ts"
    and "attrs mn (worker_name (eval_index t)) = None"
  shows "\<exists>e. MultiNetwork_eval ne mn ts = Inl e"
proof -
  have "Inl AttributeError \<in> set (map (\<lambda>t. eval_interval ne mn (eval_index t)
                                      [fsub t (fmul dt (real_of_int (eval_index t)))]) ts)"
    using assms(2,3) by (force simp add: eval_interval_missing)
  from collect_Inl [OF this] show ?thesis
    by (auto simp add: MultiNetwork_eval_unfold [OF assms(1)])
qed

text \<open>
  Claim C10 (as amended). Evaluation fails with an attribute error, selecting no
  sub-network, for every float input time \<open>t\<close> with \<open>\<bar>t\<bar> < 2^53\<close> whose computed index
  is at least \<open>n_intervals\<close> or negative. Every such time \<open>t \<ge> t_max + eps13 * delta_t\<close>
  has an index of at least \<open>n_intervals\<close>, and an index of at least \<open>n_intervals\<close>
  arises only for \<open>t > t_max\<close>. The index is
  negative exactly for \<open>t \<le> - delta_t\<close> and for \<open>0 < t < eps13 * delta_t\<close>, where
  \<open>eps13\<close> is the float \<^verbatim>\<open>1e-13\<close>. A time with \<open>- delta_t < t \<le> 0\<close> has index \<open>0\<close>:
  \<open>worker_0\<close> is evaluated at the local time \<open>t\<close>.
\<close>

theorem eval_outside_domain:
  assumes "self_delta_t mn = Some delta_t"
    and "\<forall>i. i < 0 \<or> int n_intervals \<le> i \<longrightarrow> attrs mn (worker_name i) = None"
    and "attrs mn (worker_name 0) = Some w0"
    and "is_double t" and "\<bar>t\<bar> < 2 ^ 53"
  shows "(t_max + eps13 * delta_t \<le> t \<longrightarrow> int n_intervals \<le> eval_index t)
       \<and> (int n_intervals \<le> eval_index t \<longrightarrow> t_max < t)
       \<and> (eval_index t < 0 \<longleftrightarrow> t \<le> - delta_t \<or> (0 < t \<and> t < eps13 * delta_t))
       \<and> (int n_intervals \<le> eval_index t \<or> eval_index t < 0
            \<longrightarrow> MultiNetwork_eval ne mn [t] = Inl AttributeError)
       \<and> (\<forall>ts. t \<in> set ts \<and> (int n_intervals \<le> eval_index t \<or> eval_index t < 0)
            \<longrightarrow> (\<exists>e. MultiNetwork_eval ne mn ts = Inl e))
       \<and> (- delta_t < t \<and> t \<le> 0
            \<longrightarrow> eval_index t = 0
              \<and> MultiNetwork_eval ne mn [t]
                  = (case ne w0 [t] of Inl e \<Rightarrow> Inl e | Inr rows \<Rightarrow> Inr rows))"
proof -
  have miss: "attrs mn (worker_name (eval_index t)) = None"
    if "int n_intervals \<le> eval_index t \<or> eval_index t < 0"
    using that assms(2) by blast
  have a: "int n_intervals \<le> eval_index t \<or> eval_index t < 0
            \<longrightarrow> MultiNetwork_eval ne mn [t] = Inl AttributeError"
    using miss MultiNetwork_eval_single_missing [OF assms(1)] by blast
  have b: "\<forall>ts. t \<in> set ts \<and> (int n_intervals \<le> eval_index t \<or> eval_index t < 0)
            \<longrightarrow> (\<exists>e. MultiNetwork_eval ne mn ts = Inl e)"
    using miss MultiNetwork_eval_some_missing [OF assms(1)] by blast
  have c: "- delta_t < t \<and> t \<le> 0
            \<longrightarrow> eval_index t = 0
              \<and> MultiNetwork_eval ne mn [t]
                  = (case ne w0 [t] of Inl e \<Rightarrow> Inl e | Inr rows \<Rightarrow> Inr rows)"
  proof
    assume r: "- delta_t < t \<and> t \<le> 0"
    then have z: "eval_index t = 0"
      using assms(4) by (simp add: eval_index_just_below_zero delta_t_one)
    have w: "attrs mn (worker_name (eval_index t)) = Some w0" using assms(3) by (simp add: z)
    have sh: "fsub t (fmul delta_t (real_of_int (eval_index t))) = t"
      using assms(4) by (simp add: z fsub_def fmul_def round_double_zero is_double_def)
    from z MultiNetwork_eval_single [OF assms(1) w sh]
    show "eval_index t = 0
              \<and> MultiNetwork_eval ne mn [t]
                  = (case ne w0 [t] of Inl e \<Rightarrow> Inl e | Inr rows \<Rightarrow> Inr rows)" by simp
  qed
  have "t < 2 ^ 53" using assms(5) by simp
  then have d: "t_max + eps13 * delta_t \<le> t \<longrightarrow> int n_intervals \<le> eval_index t"
    using eval_index_beyond [OF assms(4)] by (simp add: t_max_def delta_t_one n_intervals_def)
  have e: "int n_intervals \<le> eval_index t \<longrightarrow> t_max < t"
    using eval_index_large_only [OF assms(4)] by (simp add: t_max_def n_intervals_def)
  have f: "eval_index t < 0 \<longleftrightarrow> t \<le> - delta_t \<or> (0 < t \<and> t < eps13 * delta_t)"
    using eval_index_negative [OF assms(4)] by (simp add: delta_t_one)
  show ?thesis by (intro conjI) (fact a b c d e f)+
qed

lemma is_double_minus_half: "is_double (- (1 / 2))"
  by (rule is_double_dyadic [of _ "- 1" "- 1"]) (simp_all add: power_int_minus_divide)

lemma is_double_minus_three_halves: "is_double (- (3 / 2))"
  by (rule is_double_dyadic [of _ "- 3" "- 1"]) (simp_all add: power_int_minus_divide)

lemma is_double_above_72: "is_double (72 + 7 / 2 ^ 46)"
  by (rule is_double_dyadic [of _ "72 * 2 ^ 46 + 7" "- 46"])
     (simp_all add: power_int_minus_divide)

lemma is_double_next_72: "is_double (72 + 1 / 2 ^ 46)"
  by (rule is_double_dyadic [of _ "72 * 2 ^ 46 + 1" "- 46"])
     (simp_all add: power_int_minus_divide)

lemma is_double_100: "is_double 100"
  using is_double_int [of 100] by simp

lemma eval_index_minus_half: "eval_index (- (1 / 2)) = 0"
  by (rule eval_index_just_below_zero [OF is_double_minus_half]) simp_all

lemma eval_index_minus_three_halves: "eval_index (- (3 / 2)) = - 1"
proof -
  have "\<lceil>- ((3::real) / 2)\<rceil> = - 1" by (rule ceiling_unique) simp_all
  then show ?thesis using eval_index_nonpos [OF is_double_minus_three_halves] by simp
qed

lemma eval_index_next_72: "eval_index (72 + 1 / 2 ^ 46) = 71"
  using eval_index_past_boundary [OF is_double_next_72, of 72] by (simp add: eps13_value)

theorem eval_outside_domain_witness:
  "MultiNetwork_eval probe_eval probe_multi_net [100] = Inl AttributeError
   \<and> eval_index (72 + 7 / 2 ^ 46) = 72
   \<and> MultiNetwork_eval probe_eval probe_multi_net [72 + 7 / 2 ^ 46] = Inl AttributeError
   \<and> eval_index (- (1 / 2)) = 0
   \<and> MultiNetwork_eval probe_eval probe_multi_net [- (1 / 2)] = Inr [[0, - (1 / 2)]]"
proof -
  have h2: "\<forall>i. i < 0 \<or> int n_intervals \<le> i \<longrightarrow> attrs probe_multi_net (worker_name i) = None"
    by (simp add: probe_missing)
  have h3: "attrs probe_multi_net (worker_name 0) = Some 0"
    using probe_workers [of 0] by (simp add: n_intervals_def)
  note facts = eval_outside_domain [OF probe_delta_t h2 h3]
  have "t_max + eps13 * delta_t \<le> 100" by (simp add: t_max_def delta_t_one eps13_value)
  moreover have b100: "\<bar>100::real\<bar> < 2 ^ 53" by simp
  ultimately have "t_max + eps13 * delta_t \<le> 100" by simp
  with facts [OF is_double_100 b100, of probe_eval]
  have a: "MultiNetwork_eval probe_eval probe_multi_net [100] = Inl AttributeError" by blast
  have "int n_intervals \<le> eval_index (72 + 7 / 2 ^ 46)"
    by (simp only: eval_index_above_72) (simp add: n_intervals_def)
  moreover have b72: "\<bar>72 + 7 / 2 ^ 46 :: real\<bar> < 2 ^ 53" by simp
  ultimately have "int n_intervals \<le> eval_index (72 + 7 / 2 ^ 46)" by simp
  with facts [OF is_double_above_72 b72, of probe_eval]
  have b: "MultiNetwork_eval probe_eval probe_multi_net [72 + 7 / 2 ^ 46] = Inl AttributeError"
    by blast
  have "- delta_t < - (1 / 2) \<and> - (1 / 2) \<le> (0::real)" by (simp add: delta_t_one)
  moreover have bh: "\<bar>- (1 / 2) :: real\<bar> < 2 ^ 53" by simp
  ultimately have "- delta_t < - (1 / 2) \<and> - (1 / 2) \<le> (0::real)" by simp
  with facts [OF is_double_minus_half bh, of probe_eval]
  have "eval_index (- (1 / 2)) = 0
        \<and> MultiNetwork_eval probe_eval probe_multi_net [- (1 / 2)]
            = (case probe_eval 0 [- (1 / 2)] of Inl e \<Rightarrow> Inl e | Inr rows \<Rightarrow> Inr rows)"
    by blast
  then have c: "eval_index (- (1 / 2)) = 0
        \<and> MultiNetwork_eval probe_eval probe_multi_net [- (1 / 2)] = Inr [[0, - (1 / 2)]]"
    by (simp add: probe_eval_def)
  from a b c eval_index_above_72 show ?thesis by blast
qed

theorem eval_outside_domain_counterexample:
  "eval_index (- (1 / 2)) = 0
   \<and> MultiNetwork_eval probe_eval probe_multi_net [- (1 / 2)] = Inr [[0, - (1 / 2)]]
   \<and> eval_index (- (3 / 2)) = - 1
   \<and> MultiNetwork_eval probe_eval probe_multi_net [- (3 / 2)] = Inl AttributeError
   \<and> attrs probe_multi_net (worker_name 71) = Some 71
   \<and> t_max < 72 + 1 / 2 ^ 46
   \<and> MultiNetwork_eval probe_eval probe_multi_net [72 + 1 / 2 ^ 46]
       = Inr [[71, 1 + 1 / 2 ^ 46]]"
proof -
  have a: "attrs probe_multi_net (worker_name (eval_index (- (3 / 2)))) = None"
    unfolding eval_index_minus_three_halves by (rule probe_missing) simp
  have b: "attrs probe_multi_net (worker_name (eval_index (- (1 / 2)))) = Some 0"
    unfolding eval_index_minus_half using probe_workers [of 0] by (simp add: n_intervals_def)
  have c: "attrs probe_multi_net (worker_name 71) = Some 71"
    using probe_workers [of 71] by (simp add: n_intervals_def)
  have c': "attrs probe_multi_net (worker_name (eval_index (72 + 1 / 2 ^ 46))) = Some 71"
    unfolding eval_index_next_72 by (rule c)
  have d: "MultiNetwork_eval probe_eval probe_multi_net [- (3 / 2)] = Inl AttributeError"
    using probe_delta_t a by (rule MultiNetwork_eval_single_missing)
  have sh1: "fsub (- (1 / 2)) (fmul delta_t (real_of_int (eval_index (- (1 / 2))))) = - (1 / 2)"
    using is_double_minus_half
    by (simp add: eval_index_minus_half [simplified] fsub_def fmul_def round_double_zero
        is_double_def)
  have e: "MultiNetwork_eval probe_eval probe_multi_net [- (1 / 2)] = Inr [[0, - (1 / 2)]]"
    by (simp only: MultiNetwork_eval_single [OF probe_delta_t b sh1]) (simp add: probe_eval_def)
  have "fsub (72 + 1 / 2 ^ 46) (fmul delta_t (real_of_int 71))
          = 72 + 1 / 2 ^ 46 - real_of_int 71"
    using is_double_next_72 by (rule shift_exact) simp_all
  then have sh2: "fsub (72 + 1 / 2 ^ 46)
      (fmul delta_t (real_of_int (eval_index (72 + 1 / 2 ^ 46)))) = 1 + 1 / 2 ^ 46"
    by (simp add: eval_index_next_72 [simplified])
  have f: "MultiNetwork_eval probe_eval probe_multi_net [72 + 1 / 2 ^ 46]
       = Inr [[71, 1 + 1 / 2 ^ 46]]"
    by (simp only: MultiNetwork_eval_single [OF probe_delta_t c' sh2]) (simp add: probe_eval_def)
  have g: "t_max < 72 + 1 / 2 ^ 46" by (simp add: t_max_def)
  from c d e f g eval_index_minus_half eval_index_minus_three_halves show ?thesis by blast
qed

section \<open>The training loop\<close>

lemma loop_body_Inr:
  assumes "loop_body fw i s = Inr s'"
  shows "\<exists>n1 w1 n2 w2 rows fresh w3 loaded.
     adam_fit fw (Epoch_Decay (int i)) (linspace 0 delta_t n) (make_params (state_t s))
        (net_next s) (world s) = Inr (n1, w1)
   \<and> lbfgs_fit fw (linspace 0 delta_t n) (make_params (state_t s)) n1 w1 = Inr (n2, w2)
   \<and> net_eval fw n2 (linspace 0 delta_t n) = Inr rows \<and> rows \<noteq> []
   \<and> model fw w2 = Inr (fresh, w3)
   \<and> load_state_dict fw (state_dict fw n2) fresh = Inr loaded
   \<and> s' = \<lparr>state_t = last rows, net_next = loaded,
            multi_net = set_network (multi_net s) n2 (int i), world = w3,
            events = events s @ interval_events i\<rparr>"
  using assms
  by (auto simp add: loop_body_def Let_def py_last_def interval_events_def
      split: sum.splits prod.splits if_splits)

lemma loop_body_Inl:
  assumes "loop_body fw i s = Inl (e, evs)"
  shows "\<exists>p. evs = events s @ p \<and> strict_prefix p (interval_events i)"
  using assms
  by (auto simp add: loop_body_def Let_def py_last_def interval_events_def strict_prefix_simps
      split: sum.splits prod.splits if_splits)

lemma run_intervals_append:
  "run_intervals fw (xs @ ys) s =
     (case run_intervals fw xs s of Inl f \<Rightarrow> Inl f | Inr s' \<Rightarrow> run_intervals fw ys s')"
  by (induction xs arbitrary: s) (simp_all split: sum.splits)

lemma run_intervals_events:
  "run_intervals fw xs s = Inr s' \<Longrightarrow> events s' = events s @ concat (map interval_events xs)"
proof (induction xs arbitrary: s)
  case Nil
  then show ?case by simp
next
  case (Cons i xs)
  from Cons.prems obtain s1 where b: "loop_body fw i s = Inr s1"
    and r: "run_intervals fw xs s1 = Inr s'"
    by (auto split: sum.splits)
  from loop_body_Inr [OF b] have "events s1 = events s @ interval_events i" by auto
  with Cons.IH [OF r] show ?case by simp
qed

lemma run_intervals_failure:
  "run_intervals fw xs s = Inl (e, evs) \<Longrightarrow>
     \<exists>ys k zs sk p. xs = ys @ k # zs \<and> run_intervals fw ys s = Inr sk
        \<and> loop_body fw k sk = Inl (e, evs)
        \<and> evs = events s @ concat (map interval_events ys) @ p
        \<and> strict_prefix p (interval_events k)"
proof (induction xs arbitrary: s)
  case Nil
  then show ?case by simp
next
  case (Cons i xs)
  show ?case
  proof (cases "loop_body fw i s")
    case (Inl f)
    with Cons.prems have f: "loop_body fw i s = Inl (e, evs)" by simp
    from loop_body_Inl [OF f] obtain p where "evs = events s @ p"
      "strict_prefix p (interval_events i)" by blast
    with f have "i # xs = [] @ i # xs \<and> run_intervals fw [] s = Inr s
        \<and> loop_body fw i s = Inl (e, evs)
        \<and> evs = events s @ concat (map interval_events []) @ p
        \<and> strict_prefix p (interval_events i)" by simp
    then show ?thesis by blast
  next
    case (Inr s1)
    with Cons.prems have r: "run_intervals fw xs s1 = Inl (e, evs)" by simp
    from Cons.IH [OF r] obtain ys k zs sk p where
      h: "xs = ys @ k # zs" "run_intervals fw ys s1 = Inr sk" "loop_body fw k sk = Inl (e, evs)"
         "evs = events s1 @ concat (map interval_events ys) @ p"
         "strict_prefix p (interval_events k)" by blast
    from loop_body_Inr [OF Inr] have ev: "events s1 = events s @ interval_events i" by auto
    from h ev Inr have "i # xs = (i # ys) @ k # zs \<and> run_intervals fw (i # ys) s = Inr sk
        \<and> loop_body fw k sk = Inl (e, evs)
        \<and> evs = events s @ concat (map interval_events (i # ys)) @ p
        \<and> strict_prefix p (interval_events k)" by simp
    then show ?thesis by blast
  qed
qed

lemma run_intervals_Suc:
  assumes "run_intervals fw [0..<Suc k] s0 = Inr s"
  shows "\<exists>sk. run_intervals fw [0..<k] s0 = Inr sk \<and> loop_body fw k sk = Inr s"
  using assms by (auto simp add: run_intervals_append split: sum.splits)

lemma toy_loop_body:
  "loop_body toy i s =
     Inr \<lparr>state_t = [real_of_int (snd (net_next s) + 2)],
          net_next = (world s, snd (net_next s) + 2),
          multi_net = set_network (multi_net s) (fst (net_next s), snd (net_next s) + 2) (int i),
          world = Suc (world s),
          events = events s @ interval_events i\<rparr>"
  by (cases s) (simp add: loop_body_def toy_def Let_def py_last_def interval_events_def ac_simps)

lemma toy_run_total: "\<exists>s'. run_intervals toy xs s = Inr s'"
  by (induction xs arbitrary: s) (simp_all add: toy_loop_body)

lemma toy_run_1:
  "run_intervals toy [0..<1] toy_start =
     Inr \<lparr>state_t = [2], net_next = (Suc n_intervals, 2),
          multi_net = set_network (multi_net toy_start) (0, 2) 0,
          world = Suc (Suc n_intervals),
          events = [Model_built, Multi_built] @ interval_events 0\<rparr>"
  by (simp add: toy_loop_body toy_start_def start_state_def)


lemma set_network_own:
  "attrs (set_network mn net i) (worker_name i) = Some net"
  "modules (set_network mn net i) (worker_name i) = Some net"
  by (simp_all add: set_network_def)

lemma run_intervals_last_interval:
  assumes "run_intervals fw [0..<Suc k] s0 = Inr s"
  shows "\<exists>sk n1 w1 n2 w2 rows fresh w3.
           run_intervals fw [0..<k] s0 = Inr sk
         \<and> adam_fit fw (Epoch_Decay (int k)) (linspace 0 delta_t n) (make_params (state_t sk))
              (net_next sk) (world sk) = Inr (n1, w1)
         \<and> lbfgs_fit fw (linspace 0 delta_t n) (make_params (state_t sk)) n1 w1 = Inr (n2, w2)
         \<and> net_eval fw n2 (linspace 0 delta_t n) = Inr rows \<and> rows \<noteq> []
         \<and> model fw w2 = Inr (fresh, w3)
         \<and> load_state_dict fw (state_dict fw n2) fresh = Inr (net_next s)
         \<and> state_t s = last rows
         \<and> multi_net s = set_network (multi_net sk) n2 (int k)
         \<and> attrs (multi_net s) (worker_name (int k)) = Some n2
         \<and> modules (multi_net s) (worker_name (int k)) = Some n2"
proof -
  from run_intervals_Suc [OF assms] obtain sk where
    r: "run_intervals fw [0..<k] s0 = Inr sk" and b: "loop_body fw k sk = Inr s" by blast
  from loop_body_Inr [OF b] obtain n1 w1 n2 w2 rows fresh w3 loaded where
    h: "adam_fit fw (Epoch_Decay (int k)) (linspace 0 delta_t n) (make_params (state_t sk))
              (net_next sk) (world sk) = Inr (n1, w1)"
       "lbfgs_fit fw (linspace 0 delta_t n) (make_params (state_t sk)) n1 w1 = Inr (n2, w2)"
       "net_eval fw n2 (linspace 0 delta_t n) = Inr rows" "rows \<noteq> []"
       "model fw w2 = Inr (fresh, w3)"
       "load_state_dict fw (state_dict fw n2) fresh = Inr loaded"
       "s = \<lparr>state_t = last rows, net_next = loaded,
            multi_net = set_network (multi_net sk) n2 (int k), world = w3,
            events = events sk @ interval_events k\<rparr>" by blast
  from h(7) have e: "net_next s = loaded" "state_t s = last rows"
    "multi_net s = set_network (multi_net sk) n2 (int k)" by simp_all
  from e(3) have a: "attrs (multi_net s) (worker_name (int k)) = Some n2"
    "modules (multi_net s) (worker_name (int k)) = Some n2" by (simp_all add: set_network_own)
  from h(6) e(1) have l: "load_state_dict fw (state_dict fw n2) fresh = Inr (net_next s)"
    by simp
  from r h(1-5) l e(2,3) a show ?thesis by blast
qed

text \<open>
  Claim C2. The loss parameters of interval \<open>0\<close> carry the initial condition
  \<open>[X0, P0, S0, V0] = [0.05, 0, 10, 1]\<close> as their initial state. For every later
  interval \<open>i\<close>, the initial state in the loss parameters is the last row that the
  trained network of interval \<open>i - 1\<close> (the one registered as \<open>worker_(i - 1)\<close>) returns
  on the time grid of the interval; both fits of interval \<open>i\<close> receive these parameters.
\<close>

theorem initial_state_handoff:
  assumes "run_intervals fw [0..<i] (start_state first_net mn w) = Inr s"
  shows "(i = 0 \<longrightarrow> initial_state (make_params (state_t s)) = [[5 / 100, 0, 10, 1]])
       \<and> (1 \<le> i \<longrightarrow>
            (\<exists>net rows. attrs (multi_net s) (worker_name (int i - 1)) = Some net
               \<and> net_eval fw net (linspace 0 delta_t n) = Inr rows \<and> rows \<noteq> []
               \<and> initial_state (make_params (state_t s)) = [last rows]))
       \<and> (\<forall>s'. loop_body fw i s = Inr s' \<longrightarrow>
            (\<exists>n1 w1 n2 w2.
               adam_fit fw (Epoch_Decay (int i)) (linspace 0 delta_t n)
                 (make_params (state_t s)) (net_next s) (world s) = Inr (n1, w1)
             \<and> lbfgs_fit fw (linspace 0 delta_t n) (make_params (state_t s)) n1 w1
                 = Inr (n2, w2)))"
proof -
  have a: "i = 0 \<longrightarrow> initial_state (make_params (state_t s)) = [[5 / 100, 0, 10, 1]]"
    using assms by (auto simp add: start_state_def make_params_def X0_def P0_def S0_def V0_def)
  have b: "1 \<le> i \<longrightarrow>
            (\<exists>net rows. attrs (multi_net s) (worker_name (int i - 1)) = Some net
               \<and> net_eval fw net (linspace 0 delta_t n) = Inr rows \<and> rows \<noteq> []
               \<and> initial_state (make_params (state_t s)) = [last rows])"
  proof
    assume "1 \<le> i"
    then obtain k where k: "i = Suc k" by (cases i) simp_all
    from run_intervals_last_interval [OF assms [unfolded k]]
    obtain n2 rows where "net_eval fw n2 (linspace 0 delta_t n) = Inr rows" "rows \<noteq> []"
      "state_t s = last rows" "attrs (multi_net s) (worker_name (int k)) = Some n2" by blast
    then have "attrs (multi_net s) (worker_name (int i - 1)) = Some n2
               \<and> net_eval fw n2 (linspace 0 delta_t n) = Inr rows \<and> rows \<noteq> []
               \<and> initial_state (make_params (state_t s)) = [last rows]"
      using k by (simp add: make_params_def)
    then show "\<exists>net rows. attrs (multi_net s) (worker_name (int i - 1)) = Some net
               \<and> net_eval fw net (linspace 0 delta_t n) = Inr rows \<and> rows \<noteq> []
               \<and> initial_state (make_params (state_t s)) = [last rows]" by blast
  qed
  have c: "\<forall>s'. loop_body fw i s = Inr s' \<longrightarrow>
            (\<exists>n1 w1 n2 w2.
               adam_fit fw (Epoch_Decay (int i)) (linspace 0 delta_t n)
                 (make_params (state_t s)) (net_next s) (world s) = Inr (n1, w1)
             \<and> lbfgs_fit fw (linspace 0 delta_t n) (make_params (state_t s)) n1 w1
                 = Inr (n2, w2))"
    using loop_body_Inr [of fw i s] by blast
  from a b c show ?thesis by blast
qed

theorem initial_state_handoff_witness:
  "\<exists>s. run_intervals toy [0..<1] toy_start = Inr s
     \<and> (\<exists>net rows. attrs (multi_net s) (worker_name (int 1 - 1)) = Some net
               \<and> net_eval toy net (linspace 0 delta_t n) = Inr rows \<and> rows \<noteq> []
               \<and> initial_state (make_params (state_t s)) = [last rows])
     \<and> initial_state (make_params (state_t s)) = [[2]]"
proof -
  let ?s = "\<lparr>state_t = [2], net_next = (Suc n_intervals, 2),
          multi_net = set_network (multi_net toy_start) (0, 2) 0,
          world = Suc (Suc n_intervals),
          events = [Model_built, Multi_built] @ interval_events 0\<rparr>"
  have r: "run_intervals toy [0..<1]
             (start_state (0, 0) (MultiNetwork_init (map (\<lambda>k. (Suc k, 0)) [0..<n_intervals])
                                     delta_t ''cpu'') (Suc n_intervals)) = Inr ?s"
    using toy_run_1 by (simp only: toy_start_def)
  from initial_state_handoff [OF r]
  have "\<exists>net rows. attrs (multi_net ?s) (worker_name (int 1 - 1)) = Some net
               \<and> net_eval toy net (linspace 0 delta_t n) = Inr rows \<and> rows \<noteq> []
               \<and> initial_state (make_params (state_t ?s)) = [last rows]" by simp
  moreover have "initial_state (make_params (state_t ?s)) = [[2]]" by (simp add: make_params_def)
  ultimately show ?thesis using toy_run_1 by blast
qed

text \<open>
  Claim C9. For every interval \<open>i \<ge> 1\<close>, the network that interval \<open>i\<close> trains is a
  freshly built model into which the state dictionary of the trained network of interval
  \<open>i - 1\<close> has been loaded. If loading a state dictionary into a model gives a model with
  that state dictionary, the parameters at the start of interval \<open>i\<close> are the final
  parameters of interval \<open>i - 1\<close>.
\<close>

theorem warm_start:
  assumes "run_intervals fw [0..<i] s0 = Inr s" and "1 \<le> i"
  shows "\<exists>sk n1 w1 trained w2 fresh w3.
           run_intervals fw [0..<i - 1] s0 = Inr sk
         \<and> adam_fit fw (Epoch_Decay (int i - 1)) (linspace 0 delta_t n)
              (make_params (state_t sk)) (net_next sk) (world sk) = Inr (n1, w1)
         \<and> lbfgs_fit fw (linspace 0 delta_t n) (make_params (state_t sk)) n1 w1
              = Inr (trained, w2)
         \<and> attrs (multi_net s) (worker_name (int i - 1)) = Some trained
         \<and> model fw w2 = Inr (fresh, w3)
         \<and> load_state_dict fw (state_dict fw trained) fresh = Inr (net_next s)
         \<and> ((\<forall>sd m m'. load_state_dict fw sd m = Inr m' \<longrightarrow> state_dict fw m' = sd)
              \<longrightarrow> state_dict fw (net_next s) = state_dict fw trained)
         \<and> (\<forall>s'. loop_body fw i s = Inr s' \<longrightarrow>
              (\<exists>n1' w1'. adam_fit fw (Epoch_Decay (int i)) (linspace 0 delta_t n)
                 (make_params (state_t s)) (net_next s) (world s) = Inr (n1', w1')))"
proof -
  from assms(2) obtain k where k: "i = Suc k" by (cases i) simp_all
  from run_intervals_last_interval [OF assms(1) [unfolded k]]
  obtain sk n1 w1 n2 w2 fresh w3 where
    h: "run_intervals fw [0..<k] s0 = Inr sk"
       "adam_fit fw (Epoch_Decay (int k)) (linspace 0 delta_t n) (make_params (state_t sk))
              (net_next sk) (world sk) = Inr (n1, w1)"
       "lbfgs_fit fw (linspace 0 delta_t n) (make_params (state_t sk)) n1 w1 = Inr (n2, w2)"
       "model fw w2 = Inr (fresh, w3)"
       "load_state_dict fw (state_dict fw n2) fresh = Inr (net_next s)"
       "attrs (multi_net s) (worker_name (int k)) = Some n2" by blast
  have rt: "(\<forall>sd m m'. load_state_dict fw sd m = Inr m' \<longrightarrow> state_dict fw m' = sd)
              \<longrightarrow> state_dict fw (net_next s) = state_dict fw n2"
    using h(5) by blast
  have nx: "\<forall>s'. loop_body fw i s = Inr s' \<longrightarrow>
              (\<exists>n1' w1'. adam_fit fw (Epoch_Decay (int i)) (linspace 0 delta_t n)
                 (make_params (state_t s)) (net_next s) (world s) = Inr (n1', w1'))"
    using loop_body_Inr [of fw i s] by blast
  have ik: "i - 1 = k" "int i - 1 = int k" using k by simp_all
  from h rt nx show ?thesis unfolding ik by blast
qed

theorem warm_start_witness:
  "\<exists>s. run_intervals toy [0..<1] toy_start = Inr s
     \<and> (\<exists>trained. attrs (multi_net s) (worker_name 0) = Some trained
           \<and> state_dict toy (net_next s) = state_dict toy trained)
     \<and> state_dict toy (net_next s) = 2"
proof -
  let ?s = "\<lparr>state_t = [2], net_next = (Suc n_intervals, 2),
          multi_net = set_network (multi_net toy_start) (0, 2) 0,
          world = Suc (Suc n_intervals),
          events = [Model_built, Multi_built] @ interval_events 0\<rparr>"
  have rt: "\<forall>sd m m'. load_state_dict toy sd m = Inr m' \<longrightarrow> state_dict toy m' = sd"
    by (auto simp add: toy_def)
  from warm_start [OF toy_run_1, of ] rt
  have "\<exists>trained. attrs (multi_net ?s) (worker_name 0) = Some trained
           \<and> state_dict toy (net_next ?s) = state_dict toy trained"
    by (simp del: One_nat_def) blast
  moreover have "state_dict toy (net_next ?s) = 2" by (simp add: toy_def)
  ultimately show ?thesis using toy_run_1 by blast
qed

text \<open>
  Claim C4. The script does the same whatever value the \<open>--train\<close> flag was given: the
  parsed value is overwritten with \<open>yes\<close> before the branch is tested, so every run takes the
  training branch.
\<close>

theorem script_ignores_train_flag:
  "script fw a w = script fw b w \<and> script fw a w = train_branch fw w"
  by (simp add: script_def)

lemma local_domain_eq: "local_domain = {0 .. delta_t}"
proof -
  have nonempty: "[0..<100] \<noteq> []" by simp
  have l: "last [0..<100] = (99::nat)" by (simp del: upt.simps upt_rec_numeral)
  have h: "hd [0..<100] = (0::nat)" by (simp del: upt.simps upt_rec_numeral)
  have "hd (linspace 0 delta_t n) = 0"
    using nonempty h by (simp add: linspace_def n_def hd_map del: upt.simps upt_rec_numeral)
  moreover have "last (linspace 0 delta_t n) = delta_t"
    using nonempty l by (simp add: linspace_def n_def last_map del: upt.simps upt_rec_numeral)
  ultimately show ?thesis by (simp add: local_domain_def)
qed

lemma interval_eq: "interval i = {real i * delta_t .. real (Suc i) * delta_t}"
  by (auto simp add: interval_def local_domain_eq delta_t_one)

lemma interval_inter:
  assumes "i < j"
  shows "interval i \<inter> interval j = (if j = Suc i then {real j * delta_t} else {})"
proof (cases "j = Suc i")
  case True
  then show ?thesis by (auto simp add: interval_eq delta_t_one)
next
  case False
  with assms have "real i + 1 < real j" by linarith
  with False show ?thesis by (auto simp add: interval_eq delta_t_one)
qed

lemma interval_cover: "(\<Union>i<n_intervals. interval i) = {0 .. t_max}"
proof
  show "(\<Union>i<n_intervals. interval i) \<subseteq> {0 .. t_max}"
  proof
    fix t assume "t \<in> (\<Union>i<n_intervals. interval i)"
    then obtain i where i: "i < 72" "real i \<le> t" "t \<le> real i + 1"
      by (auto simp add: interval_eq delta_t_one n_intervals_def)
    then have "real i + 1 \<le> 72" by linarith
    with i show "t \<in> {0 .. t_max}" by (simp add: t_max_def)
  qed
next
  show "{0 .. t_max} \<subseteq> (\<Union>i<n_intervals. interval i)"
  proof
    fix t assume "t \<in> {0 .. t_max}"
    then have t: "0 \<le> t" "t \<le> 72" by (simp_all add: t_max_def)
    define i where "i = (if t = 72 then 71 else nat \<lfloor>t\<rfloor>)"
    have f: "0 \<le> \<lfloor>t\<rfloor>" using t by simp
    have "i < 72 \<and> real i \<le> t \<and> t \<le> real i + 1"
    proof (cases "t = 72")
      case True
      then show ?thesis by (simp add: i_def)
    next
      case False
      with t have "t < 72" by simp
      then have "\<lfloor>t\<rfloor> < 72" by (simp add: floor_less_iff)
      then have lt: "nat \<lfloor>t\<rfloor> < 72" by linarith
      have "real (nat \<lfloor>t\<rfloor>) = real_of_int \<lfloor>t\<rfloor>" using f by simp
      moreover have "real_of_int \<lfloor>t\<rfloor> \<le> t" "t \<le> real_of_int \<lfloor>t\<rfloor> + 1" by linarith+
      ultimately have "real (nat \<lfloor>t\<rfloor>) \<le> t" "t \<le> real (nat \<lfloor>t\<rfloor>) + 1" by simp_all
      with lt False show ?thesis by (simp only: i_def if_False)
    qed
    then show "t \<in> (\<Union>i<n_intervals. interval i)"
      by (auto simp add: interval_eq delta_t_one n_intervals_def)
  qed
qed

lemma run_intervals_workers:
  "run_intervals fw [0..<k] s0 = Inr s \<Longrightarrow> i < k \<Longrightarrow>
     \<exists>si n1 w1 trained w2.
        run_intervals fw [0..<i] s0 = Inr si
      \<and> adam_fit fw (Epoch_Decay (int i)) (linspace 0 delta_t n) (make_params (state_t si))
           (net_next si) (world si) = Inr (n1, w1)
      \<and> lbfgs_fit fw (linspace 0 delta_t n) (make_params (state_t si)) n1 w1
           = Inr (trained, w2)
      \<and> attrs (multi_net s) (worker_name (int i)) = Some trained
      \<and> modules (multi_net s) (worker_name (int i)) = Some trained"
proof (induction k arbitrary: s)
  case 0
  then show ?case by simp
next
  case (Suc k)
  from run_intervals_last_interval [OF Suc.prems(1)]
  obtain sk n1 w1 n2 w2 where
    h: "run_intervals fw [0..<k] s0 = Inr sk"
       "adam_fit fw (Epoch_Decay (int k)) (linspace 0 delta_t n) (make_params (state_t sk))
              (net_next sk) (world sk) = Inr (n1, w1)"
       "lbfgs_fit fw (linspace 0 delta_t n) (make_params (state_t sk)) n1 w1 = Inr (n2, w2)"
       "multi_net s = set_network (multi_net sk) n2 (int k)"
       "attrs (multi_net s) (worker_name (int k)) = Some n2"
       "modules (multi_net s) (worker_name (int k)) = Some n2" by blast
  show ?case
  proof (cases "i = k")
    case True
    with h(1,2,3,5,6) show ?thesis by blast
  next
    case False
    with Suc.prems(2) have "i < k" by simp
    from Suc.IH [OF h(1) this] obtain si m1 v1 trained v2 where
      g: "run_intervals fw [0..<i] s0 = Inr si"
         "adam_fit fw (Epoch_Decay (int i)) (linspace 0 delta_t n) (make_params (state_t si))
           (net_next si) (world si) = Inr (m1, v1)"
         "lbfgs_fit fw (linspace 0 delta_t n) (make_params (state_t si)) m1 v1
           = Inr (trained, v2)"
         "attrs (multi_net sk) (worker_name (int i)) = Some trained"
         "modules (multi_net sk) (worker_name (int i)) = Some trained" by blast
    from False g(4,5) have "attrs (multi_net s) (worker_name (int i)) = Some trained"
      "modules (multi_net s) (worker_name (int i)) = Some trained"
      by (simp_all add: h(4) set_network_attrs set_network_modules worker_name_eq_iff)
    with g(1,2,3) show ?thesis by blast
  qed
qed

lemma run_intervals_frame:
  "run_intervals fw [0..<k] s0 = Inr s \<Longrightarrow> (\<And>i. i < k \<Longrightarrow> name \<noteq> worker_name (int i)) \<Longrightarrow>
     attrs (multi_net s) name = attrs (multi_net s0) name
   \<and> modules (multi_net s) name = modules (multi_net s0) name"
proof (induction k arbitrary: s)
  case 0
  then show ?case by simp
next
  case (Suc k)
  from run_intervals_last_interval [OF Suc.prems(1)]
  obtain sk n2 where
    h: "run_intervals fw [0..<k] s0 = Inr sk"
       "multi_net s = set_network (multi_net sk) n2 (int k)" by blast
  have "attrs (multi_net sk) name = attrs (multi_net s0) name
   \<and> modules (multi_net sk) name = modules (multi_net s0) name"
    using Suc.IH [OF h(1)] Suc.prems(2) by simp
  moreover have "name \<noteq> worker_name (int k)" using Suc.prems(2) [of k] by simp
  ultimately show ?case by (simp add: h(2) set_network_attrs set_network_modules)
qed

text \<open>
  Claim C5. A training loop that completes has processed the intervals \<open>0, 1, \<dots>, 71\<close>
  in this order, six framework calls per interval. There are \<open>n_intervals = 72\<close> intervals
  of width \<open>delta_t = t_max / n_intervals = 1\<close>; interval \<open>i\<close> is
  \<open>[i * delta_t, (i + 1) * delta_t]\<close>, two intervals meet only in the end point shared by
  neighbours, and together they cover \<open>[0, t_max]\<close>. After the loop, for every
  \<open>i < n_intervals\<close> the attribute and the registered module \<open>worker_i\<close> are the network
  that the two fits of interval \<open>i\<close> returned, and no other name of the piecewise model has
  changed.
\<close>

theorem intervals_processed:
  assumes "training_loop fw s0 = Inr s"
  shows "n_intervals = 72 \<and> delta_t = t_max / real n_intervals \<and> delta_t = 1
       \<and> events s = events s0 @ concat (map interval_events [0..<72])
       \<and> (\<forall>i. interval i = {real i * delta_t .. real (Suc i) * delta_t})
       \<and> (\<forall>i j. i < j \<longrightarrow>
             interval i \<inter> interval j = (if j = Suc i then {real j * delta_t} else {}))
       \<and> (\<Union>i<n_intervals. interval i) = {0 .. t_max}
       \<and> (\<forall>i<n_intervals. \<exists>si n1 w1 trained w2.
             run_intervals fw [0..<i] s0 = Inr si
           \<and> adam_fit fw (Epoch_Decay (int i)) (linspace 0 delta_t n)
                (make_params (state_t si)) (net_next si) (world si) = Inr (n1, w1)
           \<and> lbfgs_fit fw (linspace 0 delta_t n) (make_params (state_t si)) n1 w1
                = Inr (trained, w2)
           \<and> attrs (multi_net s) (worker_name (int i)) = Some trained
           \<and> modules (multi_net s) (worker_name (int i)) = Some trained)
       \<and> (\<forall>name. (\<forall>i<n_intervals. name \<noteq> worker_name (int i)) \<longrightarrow>
             attrs (multi_net s) name = attrs (multi_net s0) name
           \<and> modules (multi_net s) name = modules (multi_net s0) name)"
proof -
  from assms have r: "run_intervals fw [0..<n_intervals] s0 = Inr s"
    by (simp add: training_loop_def)
  have a: "n_intervals = 72" "delta_t = t_max / real n_intervals" "delta_t = 1"
    by (simp_all add: n_intervals_def delta_t_def t_max_def)
  have b: "events s = events s0 @ concat (map interval_events [0..<72])"
    using run_intervals_events [OF r] by (simp only: n_intervals_def)
  have c: "\<forall>i<n_intervals. \<exists>si n1 w1 trained w2.
             run_intervals fw [0..<i] s0 = Inr si
           \<and> adam_fit fw (Epoch_Decay (int i)) (linspace 0 delta_t n)
                (make_params (state_t si)) (net_next si) (world si) = Inr (n1, w1)
           \<and> lbfgs_fit fw (linspace 0 delta_t n) (make_params (state_t si)) n1 w1
                = Inr (trained, w2)
           \<and> attrs (multi_net s) (worker_name (int i)) = Some trained
           \<and> modules (multi_net s) (worker_name (int i)) = Some trained"
    using run_intervals_workers [OF r] by blast
  have d: "\<forall>name. (\<forall>i<n_intervals. name \<noteq> worker_name (int i)) \<longrightarrow>
             attrs (multi_net s) name = attrs (multi_net s0) name
           \<and> modules (multi_net s) name = modules (multi_net s0) name"
    using run_intervals_frame [OF r] by blast
  have e: "\<forall>i. interval i = {real i * delta_t .. real (Suc i) * delta_t}"
    by (simp only: interval_eq) simp
  have f: "\<forall>i j. i < j \<longrightarrow>
             interval i \<inter> interval j = (if j = Suc i then {real j * delta_t} else {})"
    using interval_inter by blast
  show ?thesis by (intro conjI) (fact a b c d e f interval_cover)+
qed

theorem intervals_processed_witness:
  "\<exists>s. training_loop toy toy_start = Inr s
     \<and> events s = [Model_built, Multi_built] @ concat (map interval_events [0..<72])
     \<and> (\<exists>trained. attrs (multi_net s) (worker_name 71) = Some trained)"
proof -
  from toy_run_total obtain s where r: "training_loop toy toy_start = Inr s"
    unfolding training_loop_def by blast
  note facts = intervals_processed [OF r]
  have ev: "events s = events toy_start @ concat (map interval_events [0..<72])"
    by (rule facts [THEN conjunct2, THEN conjunct2, THEN conjunct2, THEN conjunct1])
  have "\<forall>i<n_intervals. \<exists>si n1 w1 trained w2.
             run_intervals toy [0..<i] toy_start = Inr si
           \<and> adam_fit toy (Epoch_Decay (int i)) (linspace 0 delta_t n)
                (make_params (state_t si)) (net_next si) (world si) = Inr (n1, w1)
           \<and> lbfgs_fit toy (linspace 0 delta_t n) (make_params (state_t si)) n1 w1
                = Inr (trained, w2)
           \<and> attrs (multi_net s) (worker_name (int i)) = Some trained
           \<and> modules (multi_net s) (worker_name (int i)) = Some trained"
    by (rule facts [THEN conjunct2, THEN conjunct2, THEN conjunct2, THEN conjunct2,
          THEN conjunct2, THEN conjunct2, THEN conjunct2, THEN conjunct1])
  moreover have "(71::nat) < n_intervals" by (simp add: n_intervals_def)
  ultimately have "\<exists>trained. attrs (multi_net s) (worker_name (int 71)) = Some trained"
    by blast
  then have w: "\<exists>trained. attrs (multi_net s) (worker_name 71) = Some trained" by simp
  have "events toy_start = [Model_built, Multi_built]"
    by (simp add: toy_start_def start_state_def)
  with ev have "events s = [Model_built, Multi_built] @ concat (map interval_events [0..<72])"
    by (simp only:)
  with r w show ?thesis by blast
qed

lemma strict_prefix_context:
  assumes "strict_prefix p x"
  shows "strict_prefix (a @ p) (a @ x @ z)"
proof -
  from assms obtain q where q: "x = p @ q" "q \<noteq> []"
    by (auto simp add: strict_prefix_def prefix_def)
  then have "a @ x @ z = (a @ p) @ (q @ z)" "q @ z \<noteq> []" by simp_all
  then show ?thesis by (simp add: strict_prefix_def prefix_def)
qed

lemma upt_cut:
  assumes "k < m"
  shows "[0..<m] = [0..<k] @ k # [Suc k..<m]"
proof -
  have "[0..<k + (m - k)] = [0..<k] @ [k..<k + (m - k)]" by (rule upt_add_eq_append) simp
  with assms show ?thesis by (simp add: upt_conv_Cons)
qed

lemma upt_split:
  assumes "[0..<m] = ys @ k # zs"
  shows "ys = [0..<k] \<and> k < m"
proof -
  have "length [0..<m] = length (ys @ k # zs)" by (simp only: assms)
  then have len: "length ys < m" by simp
  from assms have "[0..<m] ! length ys = k" by (simp add: nth_append)
  with len have k: "k = length ys" by simp
  from assms have "take (length ys) [0..<m] = ys" by simp
  with len have "ys = [0..<length ys]" by (simp add: take_upt)
  with k len show ?thesis by simp
qed

lemma training_loop_failure:
  assumes "training_loop fw s0 = Inl (e, evs)"
  shows "\<exists>k<n_intervals. \<exists>sk p. run_intervals fw [0..<k] s0 = Inr sk
           \<and> loop_body fw k sk = Inl (e, evs)
           \<and> evs = events s0 @ concat (map interval_events [0..<k]) @ p
           \<and> strict_prefix p (interval_events k)"
proof -
  from assms have "run_intervals fw [0..<n_intervals] s0 = Inl (e, evs)"
    by (simp add: training_loop_def)
  from run_intervals_failure [OF this] obtain ys k zs sk p where
    h: "[0..<n_intervals] = ys @ k # zs" "run_intervals fw ys s0 = Inr sk"
       "loop_body fw k sk = Inl (e, evs)"
       "evs = events s0 @ concat (map interval_events ys) @ p"
       "strict_prefix p (interval_events k)" by blast
  from upt_split [OF h(1)] have "ys = [0..<k]" "k < n_intervals" by simp_all
  with h(2-5) show ?thesis by blast
qed

lemma training_loop_fails_at:
  assumes "k < n_intervals" and "run_intervals fw [0..<k] s0 = Inr sk"
    and "loop_body fw k sk = Inl (e, evs)"
  shows "training_loop fw s0 = Inl (e, evs)"
proof -
  from assms(1) have "[0..<n_intervals] = [0..<k] @ k # [Suc k..<n_intervals]"
    by (rule upt_cut)
  then show ?thesis using assms(2,3)
    by (simp add: training_loop_def run_intervals_append)
qed

lemma failure_trace_prefix:
  assumes "k < n_intervals" and "strict_prefix p (interval_events k)"
  shows "strict_prefix (events s0 @ concat (map interval_events [0..<k]) @ p)
           (events s0 @ concat (map interval_events [0..<n_intervals]))"
proof -
  from assms(1) have "[0..<n_intervals] = [0..<k] @ k # [Suc k..<n_intervals]"
    by (rule upt_cut)
  then have "events s0 @ concat (map interval_events [0..<n_intervals])
      = (events s0 @ concat (map interval_events [0..<k])) @ interval_events k
          @ concat (map interval_events [Suc k..<n_intervals])"
    by simp
  moreover have "strict_prefix ((events s0 @ concat (map interval_events [0..<k])) @ p)
     ((events s0 @ concat (map interval_events [0..<k])) @ interval_events k
          @ concat (map interval_events [Suc k..<n_intervals]))"
    using assms(2) by (rule strict_prefix_context)
  ultimately show ?thesis by simp
qed


lemma loop_body_lbfgs_fails:
  assumes "adam_fit fw (Epoch_Decay (int i)) (linspace 0 delta_t n) (make_params (state_t s))
             (net_next s) (world s) = Inr (n1, w1)"
    and "lbfgs_fit fw (linspace 0 delta_t n) (make_params (state_t s)) n1 w1 = Inl e"
  shows "loop_body fw i s = Inl (e, events s @ [Adam_fit i (Epoch_Decay (int i))])"
  using assms by (simp add: loop_body_def Let_def)

lemma loop_body_adam_fails:
  assumes "adam_fit fw (Epoch_Decay (int i)) (linspace 0 delta_t n) (make_params (state_t s))
             (net_next s) (world s) = Inl e"
  shows "loop_body fw i s = Inl (e, events s)"
  using assms by (simp add: loop_body_def Let_def)

lemma loop_body_eval_fails:
  assumes "adam_fit fw (Epoch_Decay (int i)) (linspace 0 delta_t n) (make_params (state_t s))
             (net_next s) (world s) = Inr (n1, w1)"
    and "lbfgs_fit fw (linspace 0 delta_t n) (make_params (state_t s)) n1 w1 = Inr (n2, w2)"
    and "net_eval fw n2 (linspace 0 delta_t n) = Inl e"
  shows "loop_body fw i s
           = Inl (e, events s @ [Adam_fit i (Epoch_Decay (int i)), Lbfgs_fit i])"
  using assms by (simp add: loop_body_def Let_def)

text \<open>
  Claim C6. In every interval the ADAM fit returns before the L-BFGS-B fit is called, the
  L-BFGS-B fit receives the network that ADAM returned, and the network that is evaluated
  and registered is the one L-BFGS-B returned. The log of a completed loop is the sequence
  ADAM fit, L-BFGS-B fit, evaluation, next model, state loaded, registration, repeated for
  the intervals in order; the log of a failed loop is a proper prefix of that sequence. If
  the L-BFGS-B fit fails, the interval ends there with only the ADAM fit logged.
\<close>

theorem fit_order:
  "(\<forall>s. training_loop fw s0 = Inr s \<longrightarrow>
        events s = events s0 @ concat (map interval_events [0..<n_intervals]))
   \<and> (\<forall>e evs. training_loop fw s0 = Inl (e, evs) \<longrightarrow>
        strict_prefix evs (events s0 @ concat (map interval_events [0..<n_intervals])))
   \<and> interval_events i = [Adam_fit i (Epoch_Decay (int i)), Lbfgs_fit i, Net_eval i,
                           Next_model i, State_loaded i, Network_set i]
   \<and> (\<forall>s s'. loop_body fw i s = Inr s' \<longrightarrow>
        (\<exists>n1 w1 n2 w2 rows.
           adam_fit fw (Epoch_Decay (int i)) (linspace 0 delta_t n) (make_params (state_t s))
             (net_next s) (world s) = Inr (n1, w1)
         \<and> lbfgs_fit fw (linspace 0 delta_t n) (make_params (state_t s)) n1 w1 = Inr (n2, w2)
         \<and> net_eval fw n2 (linspace 0 delta_t n) = Inr rows
         \<and> state_t s' = last rows
         \<and> attrs (multi_net s') (worker_name (int i)) = Some n2
         \<and> events s' = events s @ interval_events i))
   \<and> (\<forall>s n1 w1 e.
         adam_fit fw (Epoch_Decay (int i)) (linspace 0 delta_t n) (make_params (state_t s))
             (net_next s) (world s) = Inr (n1, w1)
       \<and> lbfgs_fit fw (linspace 0 delta_t n) (make_params (state_t s)) n1 w1 = Inl e
       \<longrightarrow> loop_body fw i s = Inl (e, events s @ [Adam_fit i (Epoch_Decay (int i))]))"
proof -
  have a: "\<forall>s. training_loop fw s0 = Inr s \<longrightarrow>
        events s = events s0 @ concat (map interval_events [0..<n_intervals])"
    by (simp add: training_loop_def run_intervals_events)
  have b: "\<forall>e evs. training_loop fw s0 = Inl (e, evs) \<longrightarrow>
        strict_prefix evs (events s0 @ concat (map interval_events [0..<n_intervals]))"
  proof (intro allI impI)
    fix e evs assume "training_loop fw s0 = Inl (e, evs)"
    from training_loop_failure [OF this] obtain k p where
      "k < n_intervals" "evs = events s0 @ concat (map interval_events [0..<k]) @ p"
      "strict_prefix p (interval_events k)" by blast
    then show "strict_prefix evs (events s0 @ concat (map interval_events [0..<n_intervals]))"
      using failure_trace_prefix [of k p s0] by simp
  qed
  have c: "interval_events i = [Adam_fit i (Epoch_Decay (int i)), Lbfgs_fit i, Net_eval i,
                           Next_model i, State_loaded i, Network_set i]"
    by (simp add: interval_events_def)
  have d: "\<forall>s s'. loop_body fw i s = Inr s' \<longrightarrow>
        (\<exists>n1 w1 n2 w2 rows.
           adam_fit fw (Epoch_Decay (int i)) (linspace 0 delta_t n) (make_params (state_t s))
             (net_next s) (world s) = Inr (n1, w1)
         \<and> lbfgs_fit fw (linspace 0 delta_t n) (make_params (state_t s)) n1 w1 = Inr (n2, w2)
         \<and> net_eval fw n2 (linspace 0 delta_t n) = Inr rows
         \<and> state_t s' = last rows
         \<and> attrs (multi_net s') (worker_name (int i)) = Some n2
         \<and> events s' = events s @ interval_events i)"
  proof (intro allI impI)
    fix s s' assume "loop_body fw i s = Inr s'"
    from loop_body_Inr [OF this] obtain n1 w1 n2 w2 rows fresh w3 loaded where
      h: "adam_fit fw (Epoch_Decay (int i)) (linspace 0 delta_t n) (make_params (state_t s))
              (net_next s) (world s) = Inr (n1, w1)"
         "lbfgs_fit fw (linspace 0 delta_t n) (make_params (state_t s)) n1 w1 = Inr (n2, w2)"
         "net_eval fw n2 (linspace 0 delta_t n) = Inr rows"
         "s' = \<lparr>state_t = last rows, net_next = loaded,
            multi_net = set_network (multi_net s) n2 (int i), world = w3,
            events = events s @ interval_events i\<rparr>" by blast
    from h(4) have "state_t s' = last rows"
      "attrs (multi_net s') (worker_name (int i)) = Some n2"
      "events s' = events s @ interval_events i" by (simp_all add: set_network_own)
    with h(1-3) show "\<exists>n1 w1 n2 w2 rows.
           adam_fit fw (Epoch_Decay (int i)) (linspace 0 delta_t n) (make_params (state_t s))
             (net_next s) (world s) = Inr (n1, w1)
         \<and> lbfgs_fit fw (linspace 0 delta_t n) (make_params (state_t s)) n1 w1 = Inr (n2, w2)
         \<and> net_eval fw n2 (linspace 0 delta_t n) = Inr rows
         \<and> state_t s' = last rows
         \<and> attrs (multi_net s') (worker_name (int i)) = Some n2
         \<and> events s' = events s @ interval_events i" by blast
  qed
  have e: "\<forall>s n1 w1 e.
         adam_fit fw (Epoch_Decay (int i)) (linspace 0 delta_t n) (make_params (state_t s))
             (net_next s) (world s) = Inr (n1, w1)
       \<and> lbfgs_fit fw (linspace 0 delta_t n) (make_params (state_t s)) n1 w1 = Inl e
       \<longrightarrow> loop_body fw i s = Inl (e, events s @ [Adam_fit i (Epoch_Decay (int i))])"
    by (intro allI impI, elim conjE, rule loop_body_lbfgs_fails, assumption+)
  show ?thesis by (intro conjI) (fact a b c d e)+
qed

lemma toy_diverging_body_ok:
  "snd (net_next s) < 4 \<Longrightarrow> loop_body toy_diverging i s = loop_body toy i s"
  by (simp add: loop_body_def toy_diverging_def toy_def Let_def py_last_def)

lemma toy_diverging_body_fail:
  "4 \<le> snd (net_next s) \<Longrightarrow>
     loop_body toy_diverging i s
       = Inl (External ''diverged'', events s @ [Adam_fit i (Epoch_Decay (int i))])"
  by (simp add: loop_body_def toy_diverging_def toy_def Let_def)

lemma toy_diverging_run_2:
  "run_intervals toy_diverging [0..<2] toy_start =
     Inr \<lparr>state_t = [4], net_next = (Suc (Suc n_intervals), 4),
          multi_net = set_network (set_network (multi_net toy_start) (0, 2) 0)
                        (Suc n_intervals, 4) 1,
          world = Suc (Suc (Suc n_intervals)),
          events = [Model_built, Multi_built] @ interval_events 0 @ interval_events 1\<rparr>"
proof -
  have l: "[0..<2] = [0, Suc 0]" by (simp add: upt_rec)
  show ?thesis
    by (simp add: l toy_diverging_body_ok toy_loop_body toy_start_def start_state_def)
qed

theorem fit_order_witness:
  "(\<exists>s. training_loop toy toy_start = Inr s
      \<and> events s = [Model_built, Multi_built] @ concat (map interval_events [0..<n_intervals]))
   \<and> loop_body toy_diverging 2
        \<lparr>state_t = [4], net_next = (Suc (Suc n_intervals), 4),
          multi_net = set_network (set_network (multi_net toy_start) (0, 2) 0)
                        (Suc n_intervals, 4) 1,
          world = Suc (Suc (Suc n_intervals)),
          events = [Model_built, Multi_built] @ interval_events 0 @ interval_events 1\<rparr>
       = Inl (External ''diverged'',
              [Model_built, Multi_built] @ interval_events 0 @ interval_events 1
                @ [Adam_fit 2 (Epoch_Decay 2)])"
proof -
  from toy_run_total obtain s where r: "training_loop toy toy_start = Inr s"
    unfolding training_loop_def by blast
  note facts = fit_order [of toy toy_start 2]
  from facts [THEN conjunct1] r
  have "events s = events toy_start @ concat (map interval_events [0..<n_intervals])"
    by blast
  moreover have "events toy_start = [Model_built, Multi_built]"
    by (simp add: toy_start_def start_state_def)
  ultimately have "events s
      = [Model_built, Multi_built] @ concat (map interval_events [0..<n_intervals])"
    by (simp only:)
  with r have a: "\<exists>s. training_loop toy toy_start = Inr s
      \<and> events s = [Model_built, Multi_built] @ concat (map interval_events [0..<n_intervals])"
    by blast
  have b: "loop_body toy_diverging 2
        \<lparr>state_t = [4], net_next = (Suc (Suc n_intervals), 4),
          multi_net = set_network (set_network (multi_net toy_start) (0, 2) 0)
                        (Suc n_intervals, 4) 1,
          world = Suc (Suc (Suc n_intervals)),
          events = [Model_built, Multi_built] @ interval_events 0 @ interval_events 1\<rparr>
       = Inl (External ''diverged'',
              [Model_built, Multi_built] @ interval_events 0 @ interval_events 1
                @ [Adam_fit 2 (Epoch_Decay 2)])"
    by (simp add: toy_diverging_body_fail)
  from a b show ?thesis by (rule conjI)
qed


lemma script_loop_fails:
  assumes "model fw w = Inr (first_net, w1)" and "model_multi fw w1 = Inr (mn, w2)"
    and "training_loop fw (start_state first_net mn w2) = Inl failure"
  shows "script fw a w = Inl failure"
  using assms by (simp add: script_def train_branch_def)

lemma script_save_fails:
  assumes "model fw w = Inr (first_net, w1)" and "model_multi fw w1 = Inr (mn, w2)"
    and "training_loop fw (start_state first_net mn w2) = Inr s"
    and "spfile_write fw (multi_net s) (world s) = Inl e"
  shows "script fw a w = Inl (e, events s)"
  using assms by (simp add: script_def train_branch_def)

lemma restore_read_fails:
  assumes "spfile_read fw w = Inl e"
  shows "restore_branch fw w = Inl (e, [])"
  using assms by (simp add: restore_branch_def)

lemma restore_csv_fails:
  assumes "spfile_read fw w = Inr (mn, w1)"
    and "MultiNetwork_eval (net_eval fw) mn (linspace 0 t_max 1000) = Inr rows"
    and "read_csv fw ''Bioreactor_ODEs.csv'' w1 = Inl e"
  shows "restore_branch fw w = Inl (e, [Restored, Multi_eval])"
  using assms by (simp add: restore_branch_def Let_def)

lemma restore_eval_fails:
  assumes "spfile_read fw w = Inr (mn, w1)"
    and "MultiNetwork_eval (net_eval fw) mn (linspace 0 t_max 1000) = Inl e"
  shows "restore_branch fw w = Inl (e, [Restored])"
  using assms by (simp add: restore_branch_def Let_def)

lemma restore_plot_fails:
  assumes "spfile_read fw w = Inr (mn, w1)"
    and "MultiNetwork_eval (net_eval fw) mn (linspace 0 t_max 1000) = Inr rows"
    and "read_csv fw ''Bioreactor_ODEs.csv'' w1 = Inr (ode, w2)"
    and "plot_charts fw (linspace 0 t_max 1000) rows ode w2 = Inl e"
  shows "restore_branch fw w = Inl (e, [Restored, Multi_eval, Csv_read])"
  using assms by (simp add: restore_branch_def Let_def)

lemma restore_branch_Inr:
  assumes "restore_branch fw w = Inr (w', evs)"
  shows "\<exists>mn w1 rows ode w2.
           spfile_read fw w = Inr (mn, w1)
         \<and> MultiNetwork_eval (net_eval fw) mn (linspace 0 t_max 1000) = Inr rows
         \<and> read_csv fw ''Bioreactor_ODEs.csv'' w1 = Inr (ode, w2)
         \<and> plot_charts fw (linspace 0 t_max 1000) rows ode w2 = Inr w'
         \<and> evs = [Restored, Multi_eval, Csv_read, Plotted]"
  using assms
  by (auto simp add: restore_branch_def Let_def split: sum.splits prod.splits)

lemma loop_body_last_fails:
  assumes "adam_fit fw (Epoch_Decay (int i)) (linspace 0 delta_t n) (make_params (state_t s))
             (net_next s) (world s) = Inr (n1, w1)"
    and "lbfgs_fit fw (linspace 0 delta_t n) (make_params (state_t s)) n1 w1 = Inr (n2, w2)"
    and "net_eval fw n2 (linspace 0 delta_t n) = Inr []"
  shows "loop_body fw i s
           = Inl (IndexError,
                  events s @ [Adam_fit i (Epoch_Decay (int i)), Lbfgs_fit i, Net_eval i])"
  using assms by (simp add: loop_body_def Let_def py_last_def)

lemma loop_body_model_fails:
  assumes "adam_fit fw (Epoch_Decay (int i)) (linspace 0 delta_t n) (make_params (state_t s))
             (net_next s) (world s) = Inr (n1, w1)"
    and "lbfgs_fit fw (linspace 0 delta_t n) (make_params (state_t s)) n1 w1 = Inr (n2, w2)"
    and "net_eval fw n2 (linspace 0 delta_t n) = Inr rows" and "rows \<noteq> []"
    and "model fw w2 = Inl e"
  shows "loop_body fw i s
           = Inl (e, events s @ [Adam_fit i (Epoch_Decay (int i)), Lbfgs_fit i, Net_eval i])"
  using assms by (simp add: loop_body_def Let_def py_last_def)

lemma loop_body_load_fails:
  assumes "adam_fit fw (Epoch_Decay (int i)) (linspace 0 delta_t n) (make_params (state_t s))
             (net_next s) (world s) = Inr (n1, w1)"
    and "lbfgs_fit fw (linspace 0 delta_t n) (make_params (state_t s)) n1 w1 = Inr (n2, w2)"
    and "net_eval fw n2 (linspace 0 delta_t n) = Inr rows" and "rows \<noteq> []"
    and "model fw w2 = Inr (fresh, w3)"
    and "load_state_dict fw (state_dict fw n2) fresh = Inl e"
  shows "loop_body fw i s
           = Inl (e, events s @ [Adam_fit i (Epoch_Decay (int i)), Lbfgs_fit i, Net_eval i,
                                 Next_model i])"
  using assms by (simp add: loop_body_def Let_def py_last_def)

lemma loop_body_Inr_calls:
  assumes "loop_body fw i s = Inr s'"
  shows "\<exists>n1 w1 n2 w2 rows fresh w3.
     adam_fit fw (Epoch_Decay (int i)) (linspace 0 delta_t n) (make_params (state_t s))
        (net_next s) (world s) = Inr (n1, w1)
   \<and> lbfgs_fit fw (linspace 0 delta_t n) (make_params (state_t s)) n1 w1 = Inr (n2, w2)
   \<and> net_eval fw n2 (linspace 0 delta_t n) = Inr rows \<and> rows \<noteq> []
   \<and> model fw w2 = Inr (fresh, w3)
   \<and> load_state_dict fw (state_dict fw n2) fresh = Inr (net_next s')"
proof -
  from loop_body_Inr [OF assms] obtain n1 w1 n2 w2 rows fresh w3 loaded where
    h: "adam_fit fw (Epoch_Decay (int i)) (linspace 0 delta_t n) (make_params (state_t s))
              (net_next s) (world s) = Inr (n1, w1)"
       "lbfgs_fit fw (linspace 0 delta_t n) (make_params (state_t s)) n1 w1 = Inr (n2, w2)"
       "net_eval fw n2 (linspace 0 delta_t n) = Inr rows" "rows \<noteq> []"
       "model fw w2 = Inr (fresh, w3)"
       "load_state_dict fw (state_dict fw n2) fresh = Inr loaded"
       "s' = \<lparr>state_t = last rows, net_next = loaded,
            multi_net = set_network (multi_net s) n2 (int i), world = w3,
            events = events s @ interval_events i\<rparr>" by blast
  from h(7) have "net_next s' = loaded" by simp
  with h(6) have "load_state_dict fw (state_dict fw n2) fresh = Inr (net_next s')" by simp
  with h(1-5) show ?thesis by blast
qed

lemma script_model_fails:
  assumes "model fw w = Inl e"
  shows "script fw a w = Inl (e, [])"
  using assms by (simp add: script_def train_branch_def)

lemma script_multi_fails:
  assumes "model fw w = Inr (first_net, w1)" and "model_multi fw w1 = Inl e"
  shows "script fw a w = Inl (e, [Model_built])"
  using assms by (simp add: script_def train_branch_def)

lemma model_multi_fails:
  assumes "build_models fw n_intervals w = Inl e"
  shows "model_multi fw w = Inl e"
  using assms by (simp add: model_multi_def)

lemma script_Inr:
  assumes "script fw a w = Inr (w', evs)"
  shows "\<exists>first_net w1 mn w2 s.
           model fw w = Inr (first_net, w1) \<and> model_multi fw w1 = Inr (mn, w2)
         \<and> training_loop fw (start_state first_net mn w2) = Inr s
         \<and> spfile_write fw (multi_net s) (world s) = Inr w'
         \<and> evs = events s @ [Saved]"
  using assms
  by (auto simp add: script_def train_branch_def split: sum.splits prod.splits)

text \<open>
  Claim C7. Nothing in the script catches an error. In the loop body a failing ADAM fit,
  L-BFGS-B fit, evaluation, last-row access, model construction or state loading ends the
  body with that error, and a body that completes has had every one of these calls
  succeed. A loop body that fails in interval \<open>k\<close> ends the training loop with the same
  error, and the log then holds the complete intervals \<open>0, \<dots>, k - 1\<close> followed by a
  proper prefix of the calls of interval \<open>k\<close>, so interval \<open>k\<close> is not registered and no
  later interval is started. Every failure of the loop arises in this way. A failed first
  model, a failed construction of the piecewise model, a failed loop and a failed save end
  the script with the error, and a script that ends normally has had all of them succeed.
  In the restore branch a failed model read, a failed evaluation of the piecewise model, a
  failed CSV read and a failed plot each end the branch with the error, and the branch ends
  normally only if all four succeeded.
\<close>

theorem failure_propagates:
  "(\<forall>k sk e evs. k < n_intervals \<and> run_intervals fw [0..<k] s0 = Inr sk
        \<and> loop_body fw k sk = Inl (e, evs)
      \<longrightarrow> training_loop fw s0 = Inl (e, evs)
        \<and> (\<exists>p. evs = events s0 @ concat (map interval_events [0..<k]) @ p
              \<and> strict_prefix p (interval_events k)))
   \<and> (\<forall>e evs. training_loop fw s0 = Inl (e, evs)
      \<longrightarrow> (\<exists>k<n_intervals. \<exists>sk p. run_intervals fw [0..<k] s0 = Inr sk
              \<and> loop_body fw k sk = Inl (e, evs)
              \<and> evs = events s0 @ concat (map interval_events [0..<k]) @ p
              \<and> strict_prefix p (interval_events k)))
   \<and> (\<forall>i s e.
         adam_fit fw (Epoch_Decay (int i)) (linspace 0 delta_t n) (make_params (state_t s))
           (net_next s) (world s) = Inl e
      \<longrightarrow> loop_body fw i s = Inl (e, events s))
   \<and> (\<forall>i s n1 w1 e.
         adam_fit fw (Epoch_Decay (int i)) (linspace 0 delta_t n) (make_params (state_t s))
           (net_next s) (world s) = Inr (n1, w1)
       \<and> lbfgs_fit fw (linspace 0 delta_t n) (make_params (state_t s)) n1 w1 = Inl e
      \<longrightarrow> loop_body fw i s = Inl (e, events s @ [Adam_fit i (Epoch_Decay (int i))]))
   \<and> (\<forall>i s n1 w1 n2 w2 e.
         adam_fit fw (Epoch_Decay (int i)) (linspace 0 delta_t n) (make_params (state_t s))
           (net_next s) (world s) = Inr (n1, w1)
       \<and> lbfgs_fit fw (linspace 0 delta_t n) (make_params (state_t s)) n1 w1 = Inr (n2, w2)
       \<and> net_eval fw n2 (linspace 0 delta_t n) = Inl e
      \<longrightarrow> loop_body fw i s
            = Inl (e, events s @ [Adam_fit i (Epoch_Decay (int i)), Lbfgs_fit i]))
   \<and> (\<forall>a w first_net w1 mn w2 failure.
         model fw w = Inr (first_net, w1) \<and> model_multi fw w1 = Inr (mn, w2)
       \<and> training_loop fw (start_state first_net mn w2) = Inl failure
      \<longrightarrow> script fw a w = Inl failure)
   \<and> (\<forall>a w first_net w1 mn w2 s e.
         model fw w = Inr (first_net, w1) \<and> model_multi fw w1 = Inr (mn, w2)
       \<and> training_loop fw (start_state first_net mn w2) = Inr s
       \<and> spfile_write fw (multi_net s) (world s) = Inl e
      \<longrightarrow> script fw a w = Inl (e, events s))
   \<and> (\<forall>w e. spfile_read fw w = Inl e \<longrightarrow> restore_branch fw w = Inl (e, []))
   \<and> (\<forall>w mn w1 rows e.
         spfile_read fw w = Inr (mn, w1)
       \<and> MultiNetwork_eval (net_eval fw) mn (linspace 0 t_max 1000) = Inr rows
       \<and> read_csv fw ''Bioreactor_ODEs.csv'' w1 = Inl e
      \<longrightarrow> restore_branch fw w = Inl (e, [Restored, Multi_eval]))
   \<and> (\<forall>w mn w1 e.
         spfile_read fw w = Inr (mn, w1)
       \<and> MultiNetwork_eval (net_eval fw) mn (linspace 0 t_max 1000) = Inl e
      \<longrightarrow> restore_branch fw w = Inl (e, [Restored]))
   \<and> (\<forall>w mn w1 rows ode w2 e.
         spfile_read fw w = Inr (mn, w1)
       \<and> MultiNetwork_eval (net_eval fw) mn (linspace 0 t_max 1000) = Inr rows
       \<and> read_csv fw ''Bioreactor_ODEs.csv'' w1 = Inr (ode, w2)
       \<and> plot_charts fw (linspace 0 t_max 1000) rows ode w2 = Inl e
      \<longrightarrow> restore_branch fw w = Inl (e, [Restored, Multi_eval, Csv_read]))
   \<and> (\<forall>w w' evs. restore_branch fw w = Inr (w', evs)
      \<longrightarrow> (\<exists>mn w1 rows ode w2.
             spfile_read fw w = Inr (mn, w1)
           \<and> MultiNetwork_eval (net_eval fw) mn (linspace 0 t_max 1000) = Inr rows
           \<and> read_csv fw ''Bioreactor_ODEs.csv'' w1 = Inr (ode, w2)
           \<and> plot_charts fw (linspace 0 t_max 1000) rows ode w2 = Inr w'
           \<and> evs = [Restored, Multi_eval, Csv_read, Plotted]))
   \<and> (\<forall>i s n1 w1 n2 w2.
         adam_fit fw (Epoch_Decay (int i)) (linspace 0 delta_t n) (make_params (state_t s))
           (net_next s) (world s) = Inr (n1, w1)
       \<and> lbfgs_fit fw (linspace 0 delta_t n) (make_params (state_t s)) n1 w1 = Inr (n2, w2)
       \<and> net_eval fw n2 (linspace 0 delta_t n) = Inr []
      \<longrightarrow> loop_body fw i s
            = Inl (IndexError,
                   events s @ [Adam_fit i (Epoch_Decay (int i)), Lbfgs_fit i, Net_eval i]))
   \<and> (\<forall>i s n1 w1 n2 w2 rows e.
         adam_fit fw (Epoch_Decay (int i)) (linspace 0 delta_t n) (make_params (state_t s))
           (net_next s) (world s) = Inr (n1, w1)
       \<and> lbfgs_fit fw (linspace 0 delta_t n) (make_params (state_t s)) n1 w1 = Inr (n2, w2)
       \<and> net_eval fw n2 (linspace 0 delta_t n) = Inr rows \<and> rows \<noteq> []
       \<and> model fw w2 = Inl e
      \<longrightarrow> loop_body fw i s
            = Inl (e, events s @ [Adam_fit i (Epoch_Decay (int i)), Lbfgs_fit i, Net_eval i]))
   \<and> (\<forall>i s n1 w1 n2 w2 rows fresh w3 e.
         adam_fit fw (Epoch_Decay (int i)) (linspace 0 delta_t n) (make_params (state_t s))
           (net_next s) (world s) = Inr (n1, w1)
       \<and> lbfgs_fit fw (linspace 0 delta_t n) (make_params (state_t s)) n1 w1 = Inr (n2, w2)
       \<and> net_eval fw n2 (linspace 0 delta_t n) = Inr rows \<and> rows \<noteq> []
       \<and> model fw w2 = Inr (fresh, w3)
       \<and> load_state_dict fw (state_dict fw n2) fresh = Inl e
      \<longrightarrow> loop_body fw i s
            = Inl (e, events s @ [Adam_fit i (Epoch_Decay (int i)), Lbfgs_fit i, Net_eval i,
                                  Next_model i]))
   \<and> (\<forall>i s s'. loop_body fw i s = Inr s'
      \<longrightarrow> (\<exists>n1 w1 n2 w2 rows fresh w3.
             adam_fit fw (Epoch_Decay (int i)) (linspace 0 delta_t n) (make_params (state_t s))
               (net_next s) (world s) = Inr (n1, w1)
           \<and> lbfgs_fit fw (linspace 0 delta_t n) (make_params (state_t s)) n1 w1 = Inr (n2, w2)
           \<and> net_eval fw n2 (linspace 0 delta_t n) = Inr rows \<and> rows \<noteq> []
           \<and> model fw w2 = Inr (fresh, w3)
           \<and> load_state_dict fw (state_dict fw n2) fresh = Inr (net_next s')))
   \<and> (\<forall>a w e. model fw w = Inl e \<longrightarrow> script fw a w = Inl (e, []))
   \<and> (\<forall>a w first_net w1 e.
         model fw w = Inr (first_net, w1) \<and> model_multi fw w1 = Inl e
      \<longrightarrow> script fw a w = Inl (e, [Model_built]))
   \<and> (\<forall>w e. build_models fw n_intervals w = Inl e \<longrightarrow> model_multi fw w = Inl e)
   \<and> (\<forall>a w w' evs. script fw a w = Inr (w', evs)
      \<longrightarrow> (\<exists>first_net w1 mn w2 s.
             model fw w = Inr (first_net, w1) \<and> model_multi fw w1 = Inr (mn, w2)
           \<and> training_loop fw (start_state first_net mn w2) = Inr s
           \<and> spfile_write fw (multi_net s) (world s) = Inr w'
           \<and> evs = events s @ [Saved]))
   \<and> (\<forall>k w e. model fw w = Inl e \<longrightarrow> build_models fw (Suc k) w = Inl e)
   \<and> (\<forall>k w sub w1 e. model fw w = Inr (sub, w1) \<and> build_models fw k w1 = Inl e
      \<longrightarrow> build_models fw (Suc k) w = Inl e)"
proof -
  have a: "\<forall>k sk e evs. k < n_intervals \<and> run_intervals fw [0..<k] s0 = Inr sk
        \<and> loop_body fw k sk = Inl (e, evs)
      \<longrightarrow> training_loop fw s0 = Inl (e, evs)
        \<and> (\<exists>p. evs = events s0 @ concat (map interval_events [0..<k]) @ p
              \<and> strict_prefix p (interval_events k))"
  proof (intro allI impI, elim conjE)
    fix k sk e evs
    assume k: "k < n_intervals" and r: "run_intervals fw [0..<k] s0 = Inr sk"
      and b: "loop_body fw k sk = Inl (e, evs)"
    from loop_body_Inl [OF b] obtain p where
      "evs = events sk @ p" "strict_prefix p (interval_events k)" by blast
    with run_intervals_events [OF r]
    have "evs = events s0 @ concat (map interval_events [0..<k]) @ p
              \<and> strict_prefix p (interval_events k)" by simp
    with training_loop_fails_at [OF k r b]
    show "training_loop fw s0 = Inl (e, evs)
        \<and> (\<exists>p. evs = events s0 @ concat (map interval_events [0..<k]) @ p
              \<and> strict_prefix p (interval_events k))" by blast
  qed
  have b: "\<forall>e evs. training_loop fw s0 = Inl (e, evs)
      \<longrightarrow> (\<exists>k<n_intervals. \<exists>sk p. run_intervals fw [0..<k] s0 = Inr sk
              \<and> loop_body fw k sk = Inl (e, evs)
              \<and> evs = events s0 @ concat (map interval_events [0..<k]) @ p
              \<and> strict_prefix p (interval_events k))"
    by (intro allI impI, rule training_loop_failure)
  have c: "\<forall>i s e.
         adam_fit fw (Epoch_Decay (int i)) (linspace 0 delta_t n) (make_params (state_t s))
           (net_next s) (world s) = Inl e
      \<longrightarrow> loop_body fw i s = Inl (e, events s)"
    by (intro allI impI, rule loop_body_adam_fails)
  have d: "\<forall>i s n1 w1 e.
         adam_fit fw (Epoch_Decay (int i)) (linspace 0 delta_t n) (make_params (state_t s))
           (net_next s) (world s) = Inr (n1, w1)
       \<and> lbfgs_fit fw (linspace 0 delta_t n) (make_params (state_t s)) n1 w1 = Inl e
      \<longrightarrow> loop_body fw i s = Inl (e, events s @ [Adam_fit i (Epoch_Decay (int i))])"
    by (intro allI impI, elim conjE, rule loop_body_lbfgs_fails, assumption+)
  have e: "\<forall>i s n1 w1 n2 w2 e.
         adam_fit fw (Epoch_Decay (int i)) (linspace 0 delta_t n) (make_params (state_t s))
           (net_next s) (world s) = Inr (n1, w1)
       \<and> lbfgs_fit fw (linspace 0 delta_t n) (make_params (state_t s)) n1 w1 = Inr (n2, w2)
       \<and> net_eval fw n2 (linspace 0 delta_t n) = Inl e
      \<longrightarrow> loop_body fw i s
            = Inl (e, events s @ [Adam_fit i (Epoch_Decay (int i)), Lbfgs_fit i])"
    by (intro allI impI, elim conjE, rule loop_body_eval_fails, assumption+)
  have f: "\<forall>a w first_net w1 mn w2 failure.
         model fw w = Inr (first_net, w1) \<and> model_multi fw w1 = Inr (mn, w2)
       \<and> training_loop fw (start_state first_net mn w2) = Inl failure
      \<longrightarrow> script fw a w = Inl failure"
    by (intro allI impI, elim conjE, rule script_loop_fails, assumption+)
  have g: "\<forall>a w first_net w1 mn w2 s e.
         model fw w = Inr (first_net, w1) \<and> model_multi fw w1 = Inr (mn, w2)
       \<and> training_loop fw (start_state first_net mn w2) = Inr s
       \<and> spfile_write fw (multi_net s) (world s) = Inl e
      \<longrightarrow> script fw a w = Inl (e, events s)"
    by (intro allI impI, elim conjE, rule script_save_fails, assumption+)
  have h: "\<forall>w e. spfile_read fw w = Inl e \<longrightarrow> restore_branch fw w = Inl (e, [])"
    by (intro allI impI, rule restore_read_fails)
  have i: "\<forall>w mn w1 rows e.
         spfile_read fw w = Inr (mn, w1)
       \<and> MultiNetwork_eval (net_eval fw) mn (linspace 0 t_max 1000) = Inr rows
       \<and> read_csv fw ''Bioreactor_ODEs.csv'' w1 = Inl e
      \<longrightarrow> restore_branch fw w = Inl (e, [Restored, Multi_eval])"
    by (intro allI impI, elim conjE, rule restore_csv_fails, assumption+)
  have x1: "\<forall>w mn w1 e.
         spfile_read fw w = Inr (mn, w1)
       \<and> MultiNetwork_eval (net_eval fw) mn (linspace 0 t_max 1000) = Inl e
      \<longrightarrow> restore_branch fw w = Inl (e, [Restored])"
    by (intro allI impI, elim conjE, rule restore_eval_fails, assumption+)
  have x2: "\<forall>w mn w1 rows ode w2 e.
         spfile_read fw w = Inr (mn, w1)
       \<and> MultiNetwork_eval (net_eval fw) mn (linspace 0 t_max 1000) = Inr rows
       \<and> read_csv fw ''Bioreactor_ODEs.csv'' w1 = Inr (ode, w2)
       \<and> plot_charts fw (linspace 0 t_max 1000) rows ode w2 = Inl e
      \<longrightarrow> restore_branch fw w = Inl (e, [Restored, Multi_eval, Csv_read])"
    by (intro allI impI, elim conjE, rule restore_plot_fails, assumption+)
  have x3: "\<forall>w w' evs. restore_branch fw w = Inr (w', evs)
      \<longrightarrow> (\<exists>mn w1 rows ode w2.
             spfile_read fw w = Inr (mn, w1)
           \<and> MultiNetwork_eval (net_eval fw) mn (linspace 0 t_max 1000) = Inr rows
           \<and> read_csv fw ''Bioreactor_ODEs.csv'' w1 = Inr (ode, w2)
           \<and> plot_charts fw (linspace 0 t_max 1000) rows ode w2 = Inr w'
           \<and> evs = [Restored, Multi_eval, Csv_read, Plotted])"
    by (intro allI impI, rule restore_branch_Inr)
  have x4: "\<forall>i s n1 w1 n2 w2.
         adam_fit fw (Epoch_Decay (int i)) (linspace 0 delta_t n) (make_params (state_t s))
           (net_next s) (world s) = Inr (n1, w1)
       \<and> lbfgs_fit fw (linspace 0 delta_t n) (make_params (state_t s)) n1 w1 = Inr (n2, w2)
       \<and> net_eval fw n2 (linspace 0 delta_t n) = Inr []
      \<longrightarrow> loop_body fw i s
            = Inl (IndexError,
                   events s @ [Adam_fit i (Epoch_Decay (int i)), Lbfgs_fit i, Net_eval i])"
    by (intro allI impI, elim conjE, rule loop_body_last_fails, assumption+)
  have x5: "\<forall>i s n1 w1 n2 w2 rows e.
         adam_fit fw (Epoch_Decay (int i)) (linspace 0 delta_t n) (make_params (state_t s))
           (net_next s) (world s) = Inr (n1, w1)
       \<and> lbfgs_fit fw (linspace 0 delta_t n) (make_params (state_t s)) n1 w1 = Inr (n2, w2)
       \<and> net_eval fw n2 (linspace 0 delta_t n) = Inr rows \<and> rows \<noteq> []
       \<and> model fw w2 = Inl e
      \<longrightarrow> loop_body fw i s
            = Inl (e, events s @ [Adam_fit i (Epoch_Decay (int i)), Lbfgs_fit i, Net_eval i])"
    by (intro allI impI, elim conjE, rule loop_body_model_fails, assumption+)
  have x6: "\<forall>i s n1 w1 n2 w2 rows fresh w3 e.
         adam_fit fw (Epoch_Decay (int i)) (linspace 0 delta_t n) (make_params (state_t s))
           (net_next s) (world s) = Inr (n1, w1)
       \<and> lbfgs_fit fw (linspace 0 delta_t n) (make_params (state_t s)) n1 w1 = Inr (n2, w2)
       \<and> net_eval fw n2 (linspace 0 delta_t n) = Inr rows \<and> rows \<noteq> []
       \<and> model fw w2 = Inr (fresh, w3)
       \<and> load_state_dict fw (state_dict fw n2) fresh = Inl e
      \<longrightarrow> loop_body fw i s
            = Inl (e, events s @ [Adam_fit i (Epoch_Decay (int i)), Lbfgs_fit i, Net_eval i,
                                  Next_model i])"
    by (intro allI impI, elim conjE, rule loop_body_load_fails, assumption+)
  have x7: "\<forall>i s s'. loop_body fw i s = Inr s'
      \<longrightarrow> (\<exists>n1 w1 n2 w2 rows fresh w3.
             adam_fit fw (Epoch_Decay (int i)) (linspace 0 delta_t n) (make_params (state_t s))
               (net_next s) (world s) = Inr (n1, w1)
           \<and> lbfgs_fit fw (linspace 0 delta_t n) (make_params (state_t s)) n1 w1 = Inr (n2, w2)
           \<and> net_eval fw n2 (linspace 0 delta_t n) = Inr rows \<and> rows \<noteq> []
           \<and> model fw w2 = Inr (fresh, w3)
           \<and> load_state_dict fw (state_dict fw n2) fresh = Inr (net_next s'))"
    by (intro allI impI, rule loop_body_Inr_calls)
  have x8: "\<forall>a w e. model fw w = Inl e \<longrightarrow> script fw a w = Inl (e, [])"
    by (intro allI impI, rule script_model_fails)
  have x9: "\<forall>a w first_net w1 e.
         model fw w = Inr (first_net, w1) \<and> model_multi fw w1 = Inl e
      \<longrightarrow> script fw a w = Inl (e, [Model_built])"
    by (intro allI impI, elim conjE, rule script_multi_fails, assumption+)
  have x10: "\<forall>w e. build_models fw n_intervals w = Inl e \<longrightarrow> model_multi fw w = Inl e"
    by (intro allI impI, rule model_multi_fails)
  have x11: "\<forall>a w w' evs. script fw a w = Inr (w', evs)
      \<longrightarrow> (\<exists>first_net w1 mn w2 s.
             model fw w = Inr (first_net, w1) \<and> model_multi fw w1 = Inr (mn, w2)
           \<and> training_loop fw (start_state first_net mn w2) = Inr s
           \<and> spfile_write fw (multi_net s) (world s) = Inr w'
           \<and> evs = events s @ [Saved])"
    by (intro allI impI, rule script_Inr)
  have x12: "\<forall>k w e. model fw w = Inl e \<longrightarrow> build_models fw (Suc k) w = Inl e"
    by simp
  have x13: "\<forall>k w sub w1 e. model fw w = Inr (sub, w1) \<and> build_models fw k w1 = Inl e
      \<longrightarrow> build_models fw (Suc k) w = Inl e"
    by simp
  show ?thesis
    by (intro conjI) (fact a b c d e f g h i x1 x2 x3 x4 x5 x6 x7 x8 x9 x10 x11 x12 x13)+
qed

lemma build_models_toy_diverging:
  "build_models toy_diverging k w = Inr (map (\<lambda>j. (w + j, 0)) [0..<k], w + k)"
proof (induction k arbitrary: w)
  case 0
  then show ?case by simp
next
  case (Suc k)
  have m: "model toy_diverging w = Inr ((w, 0), Suc w)"
    by (simp add: toy_diverging_def toy_def)
  have "[0..<Suc k] = 0 # map Suc [0..<k]" by (simp add: upt_conv_Cons map_Suc_upt del: upt_Suc)
  then have "map (\<lambda>j. (w + j, 0::int)) [0..<Suc k]
               = (w, 0) # map (\<lambda>j. (Suc w + j, 0)) [0..<k]"
    by (simp only: list.map map_map o_def) simp
  with m Suc [of "Suc w"] show ?case by (simp del: upt_Suc)
qed

lemma toy_diverging_start:
  "model toy_diverging 0 = Inr ((0, 0), 1)"
  "model_multi toy_diverging 1
     = Inr (MultiNetwork_init (map (\<lambda>k. (Suc k, 0)) [0..<n_intervals]) delta_t ''cpu'',
            Suc n_intervals)"
  by (simp_all add: model_multi_def build_models_toy_diverging)
     (simp_all add: toy_diverging_def toy_def)

theorem failure_propagates_witness:
  "training_loop toy_diverging toy_start
     = Inl (External ''diverged'',
            [Model_built, Multi_built] @ interval_events 0 @ interval_events 1
              @ [Adam_fit 2 (Epoch_Decay 2)])
   \<and> script toy_diverging ''no'' 0
     = Inl (External ''diverged'',
            [Model_built, Multi_built] @ interval_events 0 @ interval_events 1
              @ [Adam_fit 2 (Epoch_Decay 2)])
   \<and> restore_branch toy_diverging 0 = Inl (External ''no saved model'', [])"
proof -
  let ?s2 = "\<lparr>state_t = [4], net_next = (Suc (Suc n_intervals), 4),
          multi_net = set_network (set_network (multi_net toy_start) (0, 2) 0)
                        (Suc n_intervals, 4) 1,
          world = Suc (Suc (Suc n_intervals)),
          events = [Model_built, Multi_built] @ interval_events 0 @ interval_events 1\<rparr>"
  let ?evs = "[Model_built, Multi_built] @ interval_events 0 @ interval_events 1
              @ [Adam_fit 2 (Epoch_Decay 2)]"
  note facts = failure_propagates [of toy_diverging toy_start]
  have k: "(2::nat) < n_intervals" by (simp add: n_intervals_def)
  have b: "loop_body toy_diverging 2 ?s2 = Inl (External ''diverged'', ?evs)"
    by (simp add: toy_diverging_body_fail)
  from facts [THEN conjunct1] k toy_diverging_run_2 b
  have l: "training_loop toy_diverging toy_start = Inl (External ''diverged'', ?evs)"
    by blast
  have st: "start_state (0, 0)
              (MultiNetwork_init (map (\<lambda>k. (Suc k, 0)) [0..<n_intervals]) delta_t ''cpu'')
              (Suc n_intervals) = toy_start"
    by (simp add: toy_start_def)
  from facts [THEN conjunct2, THEN conjunct2, THEN conjunct2, THEN conjunct2, THEN conjunct2,
    THEN conjunct1] toy_diverging_start l [folded st]
  have s: "script toy_diverging ''no'' 0 = Inl (External ''diverged'', ?evs)"
    by blast
  have "spfile_read toy_diverging 0 = Inl (External ''no saved model'')"
    by (simp add: toy_diverging_def toy_def)
  with facts [THEN conjunct2, THEN conjunct2, THEN conjunct2, THEN conjunct2, THEN conjunct2,
    THEN conjunct2, THEN conjunct2, THEN conjunct1]
  have r: "restore_branch toy_diverging 0 = Inl (External ''no saved model'', [])"
    by blast
  from l s r show ?thesis by (intro conjI)
qed


end
